theory Spec2Isabelle
  imports Complex_Main "HOL-Library.Sublist"
begin

section \<open>Python strings and slices\<close>

text \<open>
  A Python \<open>str\<close> is modelled as a \<open>string\<close> whose characters are the code points
  0 to 255, an \<open>int\<close> as an \<open>int\<close>, and a \<open>float\<close> as the real number it denotes.
  The selection handler ranks and filters by the scores it computes, so there every
  float operation is the exact operation followed by the rounding of the float format,
  and a float literal is the rounded decimal. The rounding function is a parameter
  (\<open>rnd\<close>, or the field \<open>float_round\<close> of the services); the results hold for every
  rounding function. Elsewhere the arithmetic is exact.
\<close>

definition whitespace_chars :: "char list" where
  "whitespace_chars =
     [CHR 0x09, CHR 0x0A, CHR 0x0B, CHR 0x0C, CHR 0x0D,
      CHR 0x1C, CHR 0x1D, CHR 0x1E, CHR 0x1F, CHR 0x20, CHR 0x85, CHR 0xA0]"

definition isspace :: "char \<Rightarrow> bool" where
  \<comment> \<open>the characters \<open>str.split()\<close>, \<open>str.strip()\<close> and the regex class \<open>\s\<close> treat as whitespace\<close>
  "isspace c = (c \<in> set whitespace_chars)"

fun split_acc :: "string \<Rightarrow> string \<Rightarrow> string list" where
  "split_acc cur [] = (if cur = [] then [] else [cur])"
| "split_acc cur (c # cs) =
     (if isspace c then (if cur = [] then split_acc [] cs else cur # split_acc [] cs)
      else split_acc (cur @ [c]) cs)"

definition str_split :: "string \<Rightarrow> string list" where
  \<comment> \<open>\<open>s.split()\<close>: the maximal runs of non-whitespace characters\<close>
  "str_split s = split_acc [] s"

definition str_strip :: "string \<Rightarrow> string" where
  \<comment> \<open>\<open>s.strip()\<close>\<close>
  "str_strip s = rev (dropWhile isspace (rev (dropWhile isspace s)))"

fun str_join :: "string \<Rightarrow> string list \<Rightarrow> string" where
  \<comment> \<open>\<open>sep.join(ws)\<close>\<close>
  "str_join sep [] = []"
| "str_join sep [w] = w"
| "str_join sep (w # ws) = w @ sep @ str_join sep ws"

definition upper_chars :: "char list" where
  "upper_chars = ''ABCDEFGHIJKLMNOPQRSTUVWXYZ'' @
     [CHR 0xC0, CHR 0xC1, CHR 0xC2, CHR 0xC3, CHR 0xC4, CHR 0xC5, CHR 0xC6, CHR 0xC7, CHR 0xC8, CHR 0xC9,
      CHR 0xCA, CHR 0xCB, CHR 0xCC, CHR 0xCD, CHR 0xCE, CHR 0xCF, CHR 0xD0, CHR 0xD1, CHR 0xD2, CHR 0xD3,
      CHR 0xD4, CHR 0xD5, CHR 0xD6, CHR 0xD8, CHR 0xD9, CHR 0xDA, CHR 0xDB, CHR 0xDC, CHR 0xDD, CHR 0xDE]"

definition lower_chars :: "char list" where
  "lower_chars = ''abcdefghijklmnopqrstuvwxyz'' @
     [CHR 0xE0, CHR 0xE1, CHR 0xE2, CHR 0xE3, CHR 0xE4, CHR 0xE5, CHR 0xE6, CHR 0xE7, CHR 0xE8, CHR 0xE9,
      CHR 0xEA, CHR 0xEB, CHR 0xEC, CHR 0xED, CHR 0xEE, CHR 0xEF, CHR 0xF0, CHR 0xF1, CHR 0xF2, CHR 0xF3,
      CHR 0xF4, CHR 0xF5, CHR 0xF6, CHR 0xF8, CHR 0xF9, CHR 0xFA, CHR 0xFB, CHR 0xFC, CHR 0xFD, CHR 0xFE]"

definition char_lower :: "char \<Rightarrow> char" where
  "char_lower c = (case map_of (zip upper_chars lower_chars) c of Some l \<Rightarrow> l | None \<Rightarrow> c)"

definition str_lower :: "string \<Rightarrow> string" where
  \<comment> \<open>\<open>s.lower()\<close>\<close>
  "str_lower s = map char_lower s"

fun str_contains :: "string \<Rightarrow> string \<Rightarrow> bool" where
  \<comment> \<open>\<open>needle in hay\<close>\<close>
  "str_contains needle [] = (needle = [])"
| "str_contains needle (c # cs) = (prefix needle (c # cs) \<or> str_contains needle cs)"

definition slice_index :: "nat \<Rightarrow> int \<Rightarrow> nat" where
  \<comment> \<open>a slice bound as Python resolves it: negative bounds count from the end, all are clamped\<close>
  "slice_index n i = (if i < 0 then nat (max (i + int n) 0) else nat (min i (int n)))"

definition py_slice :: "'a list \<Rightarrow> int \<Rightarrow> int \<Rightarrow> 'a list" where
  \<comment> \<open>\<open>xs[i:j]\<close>\<close>
  "py_slice xs i j =
     (let a = slice_index (length xs) i; b = slice_index (length xs) j
      in take (b - a) (drop a xs))"

definition py_take :: "'a list \<Rightarrow> int \<Rightarrow> 'a list" where
  \<comment> \<open>\<open>xs[:n]\<close>\<close>
  "py_take xs n = take (slice_index (length xs) n) xs"

section \<open>ingestion/chunker.py\<close>

record TextChunker =
  chunk_size :: int
  overlap_size :: int
  respect_boundaries :: bool

fun search_paragraph :: "string \<Rightarrow> nat option" where
  \<comment> \<open>\<open>re.search(r"\n\n", text)\<close>: the start of the first match\<close>
  "search_paragraph (a # b # cs) =
     (if a = CHR 0x0A \<and> b = CHR 0x0A then Some 0
      else map_option Suc (search_paragraph (b # cs)))"
| "search_paragraph _ = None"

definition sentence_end :: "char \<Rightarrow> bool" where
  "sentence_end c = (c = CHR ''.'' \<or> c = CHR ''!'' \<or> c = CHR ''?'')"

fun finditer_sentence :: "nat \<Rightarrow> string \<Rightarrow> (nat \<times> nat) list" where
  \<comment> \<open>\<open>re.finditer(r"[.!?]\s+", text)\<close> as (start, end) pairs, scanning from offset \<open>i\<close>.
      A match is one punctuation character and the whole whitespace run after it, so no
      match starts inside another one and scanning every position finds the same matches.\<close>
  "finditer_sentence i [] = []"
| "finditer_sentence i (c # cs) =
     (if sentence_end c \<and> cs \<noteq> [] \<and> isspace (hd cs)
      then (i, i + 1 + length (takeWhile isspace cs)) # finditer_sentence (Suc i) cs
      else finditer_sentence (Suc i) cs)"

definition adjust_to_boundary :: "string \<Rightarrow> string" where
  "adjust_to_boundary text =
     (case search_paragraph text of
        Some p \<Rightarrow>
          if real p > real (length text) * 0.5 then take p text
          else (case find (\<lambda>m. real (snd m) > real (length text) * 0.5)
                       (rev (finditer_sentence 0 text)) of
                  Some m \<Rightarrow> str_strip (take (snd m) text)
                | None \<Rightarrow> text)
      | None \<Rightarrow>
          (case find (\<lambda>m. real (snd m) > real (length text) * 0.5)
                  (rev (finditer_sentence 0 text)) of
             Some m \<Rightarrow> str_strip (take (snd m) text)
           | None \<Rightarrow> text))"

definition window_end :: "TextChunker \<Rightarrow> string list \<Rightarrow> int \<Rightarrow> int" where
  \<comment> \<open>\<open>end_idx = min(start_idx + self.chunk_size, len(words))\<close>\<close>
  "window_end self words start_idx = min (start_idx + chunk_size self) (int (length words))"

definition window_words :: "TextChunker \<Rightarrow> string list \<Rightarrow> int \<Rightarrow> string list" where
  \<comment> \<open>\<open>chunk_words = words[start_idx:end_idx]\<close>\<close>
  "window_words self words start_idx = py_slice words start_idx (window_end self words start_idx)"

definition emit_chunk :: "TextChunker \<Rightarrow> string list \<Rightarrow> int \<Rightarrow> string" where
  \<comment> \<open>the text appended to \<open>chunks\<close> in one iteration\<close>
  "emit_chunk self words start_idx =
     (let chunk_text = str_join '' '' (window_words self words start_idx)
      in if respect_boundaries self \<and> window_end self words start_idx < int (length words)
         then adjust_to_boundary chunk_text else chunk_text)"

partial_function (option) chunk_loop ::
  "TextChunker \<Rightarrow> string list \<Rightarrow> int \<Rightarrow> string list \<Rightarrow> string list option" where
  "chunk_loop self words start_idx chunks =
     (if start_idx < int (length words) then
        (if window_end self words start_idx \<ge> int (length words)
         then Some (chunks @ [emit_chunk self words start_idx])
         else chunk_loop self words (window_end self words start_idx - overlap_size self)
                (chunks @ [emit_chunk self words start_idx]))
      else Some chunks)"

declare chunk_loop.simps [code]

definition chunk_text :: "TextChunker \<Rightarrow> string \<Rightarrow> string list option" where
  \<comment> \<open>\<open>None\<close> is a loop that never returns\<close>
  "chunk_text self text =
     (if str_strip text = [] then Some []
      else if int (length (str_split text)) \<le> chunk_size self then Some [text]
      else chunk_loop self (str_split text) 0 [])"

text \<open>
  The sliding windows in the spec's words: a window of \<open>wsize\<close> words moves forward by
  \<open>wsize - overlap\<close> words each step and the last window extends to the end of the \<open>n\<close>
  words. Each window is a pair (start, end) of word indices, end exclusive.
\<close>

function sliding_windows :: "nat \<Rightarrow> nat \<Rightarrow> nat \<Rightarrow> nat \<Rightarrow> (nat \<times> nat) list" where
  "sliding_windows wsize overlap n start =
     (if overlap < wsize \<and> start + wsize < n
      then (start, start + wsize) # sliding_windows wsize overlap n (start + wsize - overlap)
      else [(start, n)])"
  by pat_completeness auto
termination
  by (relation "measure (\<lambda>(wsize, overlap, n, start). n - start)") auto

declare sliding_windows.simps [simp del]

section \<open>models/query.py\<close>

datatype error =
    ValidationError      \<comment> \<open>raised by a pydantic model that rejects its input\<close>
  | HTTPException nat    \<comment> \<open>raised by the route, with its status code\<close>
  | RemoteError string   \<comment> \<open>raised by the embedding, vector-index or completion client\<close>

datatype 'a field = Omitted | Given 'a

definition truthy :: "string option \<Rightarrow> bool" where
  \<comment> \<open>the truth value of an \<open>Optional[str]\<close>\<close>
  "truthy v = (case v of None \<Rightarrow> False | Some s \<Rightarrow> s \<noteq> [])"

record QueryRequest =
  query_text :: string
  query_mode :: string
  session_id :: "string option"
  selected_text :: "string option"
  max_results :: int

record RawQuery =
  in_query_text :: "string field"
  in_query_mode :: "string field"
  in_session_id :: "string option field"
  in_selected_text :: "string option field"
  in_max_results :: "int field"

definition validate_selected_text :: "string option \<Rightarrow> string option \<Rightarrow> error + string option" where
  \<comment> \<open>the field validator; \<open>mode\<close> is \<open>info.data.get("query_mode")\<close>. The \<open>ValueError\<close>
      it raises reaches the caller as the model's validation error.\<close>
  "validate_selected_text v mode =
     (if mode = Some ''selected-text'' \<and> \<not> truthy v then Inl ValidationError
      else if truthy v then
        (let word_count = length (str_split (case v of Some s \<Rightarrow> s | None \<Rightarrow> []))
         in if word_count < 20 then Inl ValidationError
            else if word_count > 2000 then Inl ValidationError
            else Inr v)
      else Inr v)"

definition check_query_text :: "string field \<Rightarrow> error + string" where
  \<comment> \<open>required, \<open>min_length=1\<close>, \<open>max_length=2000\<close>\<close>
  "check_query_text f =
     (case f of
        Omitted \<Rightarrow> Inl ValidationError
      | Given s \<Rightarrow> if 1 \<le> length s \<and> length s \<le> 2000 then Inr s else Inl ValidationError)"

definition check_query_mode :: "string field \<Rightarrow> error + string" where
  \<comment> \<open>\<open>Literal["full-book", "selected-text"]\<close>, default \<open>"full-book"\<close>\<close>
  "check_query_mode f =
     (case f of
        Omitted \<Rightarrow> Inr ''full-book''
      | Given m \<Rightarrow> if m = ''full-book'' \<or> m = ''selected-text'' then Inr m else Inl ValidationError)"

definition check_selected_text :: "string option field \<Rightarrow> string option \<Rightarrow> error + string option" where
  \<comment> \<open>default \<open>None\<close> (a default is not validated); a given string must have 20 to 2000
      characters; then the field validator runs on the given value\<close>
  "check_selected_text f mode =
     (case f of
        Omitted \<Rightarrow> Inr None
      | Given None \<Rightarrow> validate_selected_text None mode
      | Given (Some s) \<Rightarrow>
          if 20 \<le> length s \<and> length s \<le> 2000 then validate_selected_text (Some s) mode
          else Inl ValidationError)"

definition check_max_results :: "int field \<Rightarrow> error + int" where
  \<comment> \<open>default 5, \<open>ge=1\<close>, \<open>le=20\<close>\<close>
  "check_max_results f =
     (case f of
        Omitted \<Rightarrow> Inr 5
      | Given n \<Rightarrow> if 1 \<le> n \<and> n \<le> 20 then Inr n else Inl ValidationError)"

definition QueryRequest_init :: "RawQuery \<Rightarrow> error + QueryRequest" where
  \<comment> \<open>constructing a \<open>QueryRequest\<close>: every field is validated in declaration order and one
      validation error is raised if any of them fails\<close>
  "QueryRequest_init raw =
     (let qt = check_query_text (in_query_text raw);
          qm = check_query_mode (in_query_mode raw);
          st = check_selected_text (in_selected_text raw)
                 (case qm of Inr m \<Rightarrow> Some m | Inl e \<Rightarrow> None);
          mr = check_max_results (in_max_results raw)
      in case (qt, qm, st, mr) of
           (Inr q, Inr m, Inr s, Inr n) \<Rightarrow>
             Inr \<lparr>query_text = q, query_mode = m,
                  session_id = (case in_session_id raw of Omitted \<Rightarrow> None | Given v \<Rightarrow> v),
                  selected_text = s, max_results = n\<rparr>
         | _ \<Rightarrow> Inl ValidationError)"

record SourceCitation =
  chapter_id :: string
  chapter_title :: string
  module_id :: string
  section_type :: string
  file_path :: string
  cited_chunk_text :: string
  relevance_score :: real

definition SourceCitation_init :: "SourceCitation \<Rightarrow> error + SourceCitation" where
  \<comment> \<open>\<open>relevance_score\<close> is declared with \<open>ge=0.0, le=1.0\<close>\<close>
  "SourceCitation_init c =
     (if 0 \<le> relevance_score c \<and> relevance_score c \<le> 1 then Inr c else Inl ValidationError)"

record QueryResponse =
  response_text :: string
  source_citations :: "SourceCitation list"
  confidence_score :: real
  response_session_id :: "string option"
  retrieved_chunks :: int

definition QueryResponse_init :: "QueryResponse \<Rightarrow> error + QueryResponse" where
  \<comment> \<open>\<open>confidence_score\<close> has \<open>ge=0.0, le=1.0\<close> and \<open>retrieved_chunks\<close> has \<open>ge=0\<close>\<close>
  "QueryResponse_init r =
     (if 0 \<le> confidence_score r \<and> confidence_score r \<le> 1 \<and> 0 \<le> retrieved_chunks r
      then Inr r else Inl ValidationError)"

section \<open>services/retrieval_service.py\<close>

text \<open>
  A search result is the dictionary built by \<open>VectorStore.search\<close>, with the two keys the
  selection handler adds to it. The payload is read at string-valued keys only.
\<close>

record chunk =
  point_id :: int
  score :: real
  payload :: "string \<rightharpoonup> string"
  combined_score :: "real option"
  text_overlap :: "real option"

definition dict_get :: "('k \<rightharpoonup> 'v) \<Rightarrow> 'k \<Rightarrow> 'v \<Rightarrow> 'v" where
  \<comment> \<open>\<open>d.get(k, default)\<close>\<close>
  "dict_get d k dflt = (case d k of Some v \<Rightarrow> v | None \<Rightarrow> dflt)"

text \<open>
  The remote capabilities: the embedder, the vector index (called with a query vector, a
  limit and a score threshold, and no filter), the chat completion (system prompt, user
  message, token cap; the content of the first choice, which may be missing), and the
  two float primitives of the platform: the \<open>:.2f\<close> formatting and the rounding of
  float arithmetic.
\<close>

record services =
  generate_embedding :: "string \<Rightarrow> error + real list"
  vector_search :: "real list \<Rightarrow> int \<Rightarrow> real \<Rightarrow> error + chunk list"
  chat_completion :: "string \<Rightarrow> string \<Rightarrow> nat \<Rightarrow> error + string option"
  format_score :: "real \<Rightarrow> string"
  float_round :: "real \<Rightarrow> real"

definition retrieve_relevant_chunks ::
  "services \<Rightarrow> string \<Rightarrow> int \<Rightarrow> real \<Rightarrow> error + chunk list" where
  "retrieve_relevant_chunks env query limit score_threshold =
     (case generate_embedding env query of
        Inl e \<Rightarrow> Inl e
      | Inr query_embedding \<Rightarrow> vector_search env query_embedding limit score_threshold)"

definition average_embeddings :: "real list \<Rightarrow> real list \<Rightarrow> real list" where
  \<comment> \<open>\<open>[(q + s) / 2 for q, s in zip(query_embedding, selected_embedding)]\<close>\<close>
  "average_embeddings query_embedding selected_embedding =
     map (\<lambda>(q, s). (q + s) / 2) (zip query_embedding selected_embedding)"

definition shared_words :: "string \<Rightarrow> string \<Rightarrow> nat" where
  \<comment> \<open>\<open>len(set(selected_text.lower().split()) & set(chunk_text.lower().split()))\<close>\<close>
  "shared_words selected passage =
     card (set (str_split (str_lower selected)) \<inter> set (str_split (str_lower passage)))"

definition retrieve_for_selected_text ::
  "services \<Rightarrow> string \<Rightarrow> string \<Rightarrow> int \<Rightarrow> error + chunk list" where
  "retrieve_for_selected_text env query selected limit =
     (case generate_embedding env selected of
        Inl e \<Rightarrow> Inl e
      | Inr selected_embedding \<Rightarrow>
     (case generate_embedding env query of
        Inl e \<Rightarrow> Inl e
      | Inr query_embedding \<Rightarrow>
     (case vector_search env (average_embeddings query_embedding selected_embedding) limit 0.6 of
        Inl e \<Rightarrow> Inl e
      | Inr results \<Rightarrow>
          Inr (py_take
                 (filter (\<lambda>result. shared_words selected
                                      (dict_get (payload result) ''chunk_text'' []) > 3)
                    results)
                 limit))))"

definition digits :: string where
  "digits = ''0123456789''"

function str_nat :: "nat \<Rightarrow> string" where
  \<comment> \<open>the decimal digits of a natural number\<close>
  "str_nat n = (if n < 10 then [digits ! n] else str_nat (n div 10) @ [digits ! (n mod 10)])"
  by pat_completeness auto
termination
  by (relation "measure (\<lambda>n. n)") auto

declare str_nat.simps [simp del]

definition format_source :: "services \<Rightarrow> nat \<times> chunk \<Rightarrow> string" where
  \<comment> \<open>one entry of \<open>context_parts\<close>\<close>
  "format_source env ic =
     (case ic of (i, c) \<Rightarrow>
        ''[Source '' @ str_nat i @ '': '' @ dict_get (payload c) ''chapter_title'' ''Unknown'' @
        '' - '' @ dict_get (payload c) ''section_type'' ''Unknown'' @
        '' (relevance: '' @ format_score env (score c) @ '')]\<newline>'' @
        dict_get (payload c) ''chunk_text'' [] @ ''\<newline>'')"

definition format_context_for_llm :: "services \<Rightarrow> chunk list \<Rightarrow> string" where
  "format_context_for_llm env chunks =
     (if chunks = [] then []
      else str_join ''\<newline>---\<newline>''
             (map (format_source env) (zip [1..<Suc (length chunks)] chunks)))"

definition selected_text_retrieval_spec ::
  "services \<Rightarrow> string \<Rightarrow> string \<Rightarrow> int \<Rightarrow> error + chunk list" where
  \<comment> \<open>the selected-text strategy in the spec's words: search with floor 0.6 for
      \<open>max_results * 2\<close> candidates, keep those sharing more than 3 words with the
      passage, truncate to \<open>max_results\<close>\<close>
  "selected_text_retrieval_spec env query selected limit =
     (case generate_embedding env selected of
        Inl e \<Rightarrow> Inl e
      | Inr selected_embedding \<Rightarrow>
     (case generate_embedding env query of
        Inl e \<Rightarrow> Inl e
      | Inr query_embedding \<Rightarrow>
     (case vector_search env (average_embeddings query_embedding selected_embedding)
             (limit * 2) 0.6 of
        Inl e \<Rightarrow> Inl e
      | Inr results \<Rightarrow>
          Inr (py_take
                 (filter (\<lambda>result. shared_words selected
                                      (dict_get (payload result) ''chunk_text'' []) > 3)
                    results)
                 limit))))"

section \<open>services/selection_handler.py\<close>

record SelectionHandler =
  similarity_threshold :: real

definition default_selection_handler :: "(real \<Rightarrow> real) \<Rightarrow> SelectionHandler" where
  \<comment> \<open>\<open>SelectionHandler()\<close>: the threshold is the float literal \<open>0.3\<close>\<close>
  "default_selection_handler rnd = \<lparr>similarity_threshold = rnd 0.3\<rparr>"

definition stop_words :: "string list" where
  "stop_words =
     [''the'', ''a'', ''an'', ''and'', ''or'', ''but'', ''in'', ''on'', ''at'', ''to'', ''for'',
      ''of'', ''with'', ''by'', ''from'', ''as'', ''is'', ''was'', ''are'', ''were'', ''been'',
      ''be'', ''have'', ''has'', ''had'', ''do'', ''does'', ''did'', ''will'', ''would'',
      ''could'', ''should'', ''may'', ''might'', ''can'', ''this'', ''that'', ''these'',
      ''those'', ''i'', ''you'', ''he'', ''she'', ''it'', ''we'', ''they'', ''what'', ''which'',
      ''who'', ''when'', ''where'', ''why'', ''how'']"

definition extract_keywords :: "string \<Rightarrow> string set" where
  "extract_keywords text =
     set (filter (\<lambda>word. word \<notin> set stop_words \<and> length word > 2)
            (str_split (str_lower text)))"

definition calculate_overlap_score :: "(real \<Rightarrow> real) \<Rightarrow> string \<Rightarrow> string set \<Rightarrow> real" where
  \<comment> \<open>\<open>intersection / union\<close> is the quotient of two integers, rounded to a float\<close>
  "calculate_overlap_score rnd passage selected_keywords =
     (if selected_keywords = {} then 0
      else
        (let chunk_words = set (str_split (str_lower passage));
             intersection = card (chunk_words \<inter> selected_keywords);
             union = card (chunk_words \<union> selected_keywords)
         in if union = 0 then 0 else rnd (real intersection / real union)))"

definition score_chunk :: "(real \<Rightarrow> real) \<Rightarrow> string set \<Rightarrow> chunk \<Rightarrow> chunk" where
  \<comment> \<open>the dictionary appended to \<open>scored_chunks\<close> for one chunk;
      \<open>(vector_score * 0.6) + (overlap_score * 0.4)\<close> is two rounded products of a score
      and a float literal, and their rounded sum\<close>
  "score_chunk rnd selected_words c =
     (let overlap_score =
            calculate_overlap_score rnd (dict_get (payload c) ''chunk_text'' []) selected_words;
          vector_score = score c
      in c\<lparr>combined_score :=
              Some (rnd (rnd (vector_score * rnd 0.6) + rnd (overlap_score * rnd 0.4))),
            text_overlap := Some overlap_score\<rparr>)"

definition get_combined_score :: "chunk \<Rightarrow> real" where
  \<comment> \<open>\<open>x["combined_score"]\<close>, a key every element of \<open>scored_chunks\<close> has\<close>
  "get_combined_score x = the (combined_score x)"

definition get_text_overlap :: "chunk \<Rightarrow> real" where
  \<comment> \<open>\<open>chunk["text_overlap"]\<close>, a key every element of \<open>scored_chunks\<close> has\<close>
  "get_text_overlap x = the (text_overlap x)"

definition sort_reverse :: "('a \<Rightarrow> real) \<Rightarrow> 'a list \<Rightarrow> 'a list" where
  \<comment> \<open>\<open>xs.sort(key=k, reverse=True)\<close>: descending by key, elements of equal key in their
      original order\<close>
  "sort_reverse k xs = sort_key (\<lambda>x. - k x) xs"

definition filter_chunks_by_selection ::
  "(real \<Rightarrow> real) \<Rightarrow> SelectionHandler \<Rightarrow> chunk list \<Rightarrow> string \<Rightarrow> int \<Rightarrow> chunk list" where
  "filter_chunks_by_selection rnd self chunks selected limit =
     (if selected = [] \<or> chunks = [] then py_take chunks limit
      else
        (let selected_words = extract_keywords selected;
             scored_chunks = sort_reverse get_combined_score
                               (map (score_chunk rnd selected_words) chunks);
             filtered_chunks =
               filter (\<lambda>c. get_text_overlap c \<ge> similarity_threshold self) scored_chunks;
             filtered_chunks =
               (if filtered_chunks = [] \<and> scored_chunks \<noteq> []
                then py_take scored_chunks limit else filtered_chunks)
         in py_take filtered_chunks limit))"

definition enhance_context_with_selection :: "string \<Rightarrow> string \<Rightarrow> string" where
  "enhance_context_with_selection base_context selected =
     ''HIGHLIGHTED PASSAGE (User's Focus):\<newline>'' @ selected @
     ''\<newline>\<newline>---\<newline>\<newline>RELATED CONTENT FROM TEXTBOOK:\<newline>'' @ base_context"

definition jaccard :: "'a set \<Rightarrow> 'a set \<Rightarrow> real" where
  \<comment> \<open>the Jaccard similarity in the spec's words: \<open>|intersection| / |union|\<close>, 0 when the
      union is empty\<close>
  "jaccard A B = (if A \<union> B = {} then 0 else real (card (A \<inter> B)) / real (card (A \<union> B)))"

section \<open>services/response_generator.py\<close>

definition default_system_prompt :: string where
  "default_system_prompt =
     ''You are an AI assistant helping students learn about Physical AI and Humanoid Robotics.\<newline>'' @
     ''\<newline>'' @
     ''Your task is to answer questions based STRICTLY on the provided context from the textbook. Follow these rules:\<newline>'' @
     ''\<newline>'' @
     ''1. ONLY use information from the provided context sources\<newline>'' @
     ''2. If the context doesn't contain enough information to answer, say \"I don't have enough information in the textbook to answer this question.\"\<newline>'' @
     ''3. DO NOT make up information or use external knowledge\<newline>'' @
     ''4. When citing information, reference the source number (e.g., \"According to Source 1...\")\<newline>'' @
     ''5. Be clear, concise, and educational\<newline>'' @
     ''6. If the user's question is ambiguous, ask for clarification\<newline>'' @
     ''7. Format your answers with proper structure (paragraphs, lists when appropriate)\<newline>'' @
     ''\<newline>'' @
     ''Remember: Accuracy is more important than completeness. It's better to say \"I don't know\" than to hallucinate information.''"

definition selected_text_system_prompt :: string where
  "selected_text_system_prompt =
     ''You are an AI assistant helping students understand specific passages from a Physical AI and Humanoid Robotics textbook.\<newline>'' @
     ''\<newline>'' @
     ''The user has highlighted a specific passage and is asking a question about it. Your task is to:\<newline>'' @
     ''\<newline>'' @
     ''1. Focus your answer on the highlighted passage\<newline>'' @
     ''2. Use the additional context ONLY to provide supporting information\<newline>'' @
     ''3. Stay within the scope of the highlighted text\<newline>'' @
     ''4. Be concise and directly address the question\<newline>'' @
     ''5. If the question cannot be answered from the highlighted passage, say so clearly\<newline>'' @
     ''\<newline>'' @
     ''Remember: The highlighted passage is the primary source.''"

definition build_user_message :: "string \<Rightarrow> string \<Rightarrow> string" where
  "build_user_message query context =
     (if context = [] then
        ''Question: '' @ query @ ''\<newline>\<newline>'' @
        ''Context: No relevant information found in the textbook.\<newline>\<newline>'' @
        ''Please answer based on the available context.''
      else
        ''Context from textbook:\<newline>\<newline>'' @ context @
        ''\<newline>\<newline>---\<newline>\<newline>Question: '' @ query @ ''\<newline>\<newline>'' @
        ''Please answer the question using ONLY the information from the context above. '' @
        ''Cite specific sources when possible.'')"

definition uncertainty_phrases :: "string list" where
  "uncertainty_phrases =
     [''I don't have enough information'', ''I'm not sure'', ''unclear'', ''cannot answer'']"

definition cites_source :: "string \<Rightarrow> bool" where
  \<comment> \<open>\<open>"Source" in response or "According to" in response\<close>\<close>
  "cites_source response =
     (str_contains ''Source'' response \<or> str_contains ''According to'' response)"

definition sounds_uncertain :: "string \<Rightarrow> bool" where
  \<comment> \<open>\<open>any(phrase.lower() in response.lower() for phrase in uncertainty_phrases)\<close>\<close>
  "sounds_uncertain response =
     list_ex (\<lambda>phrase. str_contains (str_lower phrase) (str_lower response)) uncertainty_phrases"

definition estimate_confidence :: "string \<Rightarrow> string \<Rightarrow> real" where
  "estimate_confidence response context =
     (let confidence = 0.5;
          confidence = (if cites_source response then confidence + 0.2 else confidence);
          confidence = (if sounds_uncertain response then confidence - 0.3 else confidence);
          confidence = (if context \<noteq> [] \<and> length context > 500 then confidence + 0.1
                        else confidence)
      in max 0 (min 1 confidence))"

definition content_or_empty :: "string option \<Rightarrow> string" where
  \<comment> \<open>\<open>response.choices[0].message.content or ""\<close>\<close>
  "content_or_empty content = (case content of None \<Rightarrow> [] | Some t \<Rightarrow> t)"

definition generate_response :: "services \<Rightarrow> string \<Rightarrow> string \<Rightarrow> error + string \<times> real" where
  "generate_response env query context =
     (case chat_completion env default_system_prompt (build_user_message query context) 1000 of
        Inl e \<Rightarrow> Inl e
      | Inr content \<Rightarrow>
          Inr (content_or_empty content, estimate_confidence (content_or_empty content) context))"

definition selected_text_user_message :: "string \<Rightarrow> string \<Rightarrow> string \<Rightarrow> string" where
  "selected_text_user_message query context selected =
     ''Highlighted passage:\<newline>'' @ selected @
     ''\<newline>\<newline>---\<newline>\<newline>Additional context from textbook:\<newline>'' @ context @
     ''\<newline>\<newline>---\<newline>\<newline>Question: '' @ query @ ''\<newline>\<newline>'' @
     ''Please answer the question focusing primarily on the highlighted passage above.''"

definition generate_response_with_selected_text ::
  "services \<Rightarrow> string \<Rightarrow> string \<Rightarrow> string \<Rightarrow> error + string \<times> real" where
  "generate_response_with_selected_text env query context selected =
     (case chat_completion env selected_text_system_prompt
             (selected_text_user_message query context selected) 800 of
        Inl e \<Rightarrow> Inl e
      | Inr content \<Rightarrow>
          Inr (content_or_empty content, estimate_confidence (content_or_empty content) context))"

section \<open>services/rag_service.py\<close>

definition selection_of :: "QueryRequest \<Rightarrow> string option" where
  \<comment> \<open>the passage when \<open>request.query_mode == "selected-text" and request.selected_text\<close>
      holds, the test that guards each of the three steps\<close>
  "selection_of request =
     (if query_mode request = ''selected-text'' \<and> truthy (selected_text request)
      then selected_text request else None)"

definition retrieve_step :: "services \<Rightarrow> QueryRequest \<Rightarrow> error + chunk list" where
  \<comment> \<open>Step 1: the value of \<open>retrieved_chunks\<close>\<close>
  "retrieve_step env request =
     (case selection_of request of
        Some selected \<Rightarrow>
          (case retrieve_for_selected_text env (query_text request) selected
                  (max_results request * 2) of
             Inl e \<Rightarrow> Inl e
           | Inr initial_chunks \<Rightarrow>
               Inr (filter_chunks_by_selection (float_round env)
                      (default_selection_handler (float_round env)) initial_chunks selected
                      (max_results request)))
      | None \<Rightarrow> retrieve_relevant_chunks env (query_text request) (max_results request) 0.7)"

definition context_step :: "services \<Rightarrow> QueryRequest \<Rightarrow> chunk list \<Rightarrow> string" where
  \<comment> \<open>Step 2: the value of \<open>context\<close>\<close>
  "context_step env request chunks =
     (case selection_of request of
        Some selected \<Rightarrow>
          enhance_context_with_selection (format_context_for_llm env chunks) selected
      | None \<Rightarrow> format_context_for_llm env chunks)"

definition generate_step :: "services \<Rightarrow> QueryRequest \<Rightarrow> string \<Rightarrow> error + string \<times> real" where
  \<comment> \<open>Step 3: the values of \<open>response_text\<close> and \<open>confidence\<close>\<close>
  "generate_step env request context =
     (case selection_of request of
        Some selected \<Rightarrow>
          generate_response_with_selected_text env (query_text request) context selected
      | None \<Rightarrow> generate_response env (query_text request) context)"

definition citation_of :: "chunk \<Rightarrow> SourceCitation" where
  \<comment> \<open>the arguments \<open>SourceCitation\<close> is called with for one chunk\<close>
  "citation_of c =
     \<lparr>chapter_id = dict_get (payload c) ''chapter_id'' ''unknown'',
      chapter_title = dict_get (payload c) ''chapter_title'' ''Unknown Chapter'',
      module_id = dict_get (payload c) ''module_id'' ''unknown-module'',
      section_type = dict_get (payload c) ''section_type'' ''general'',
      file_path = dict_get (payload c) ''file_path'' [],
      cited_chunk_text = dict_get (payload c) ''chunk_text'' [],
      relevance_score = score c\<rparr>"

fun extract_source_citations :: "chunk list \<Rightarrow> error + SourceCitation list" where
  "extract_source_citations [] = Inr []"
| "extract_source_citations (c # cs) =
     (case SourceCitation_init (citation_of c) of
        Inl e \<Rightarrow> Inl e
      | Inr citation \<Rightarrow>
          (case extract_source_citations cs of
             Inl e \<Rightarrow> Inl e
           | Inr citations \<Rightarrow> Inr (citation # citations)))"

definition process_query :: "services \<Rightarrow> QueryRequest \<Rightarrow> error + QueryResponse" where
  "process_query env request =
     (case retrieve_step env request of
        Inl e \<Rightarrow> Inl e
      | Inr chunks \<Rightarrow>
     (case generate_step env request (context_step env request chunks) of
        Inl e \<Rightarrow> Inl e
      | Inr (text, confidence) \<Rightarrow>
     (case extract_source_citations chunks of
        Inl e \<Rightarrow> Inl e
      | Inr citations \<Rightarrow>
          QueryResponse_init
            \<lparr>response_text = text, source_citations = citations,
             confidence_score = confidence, response_session_id = session_id request,
             retrieved_chunks = int (length chunks)\<rparr>)))"

section \<open>api/routes/query.py\<close>

definition post_query :: "services \<Rightarrow> RawQuery \<Rightarrow> error + QueryResponse" where
  \<comment> \<open>The request body is turned into a \<open>QueryRequest\<close> before the handler runs. In the
      handler, the exception raised for a missing selection is caught by the last
      \<open>except\<close> clause, as every exception other than a \<open>ValueError\<close> is.\<close>
  "post_query env raw =
     (case QueryRequest_init raw of
        Inl e \<Rightarrow> Inl e
      | Inr request \<Rightarrow>
          if query_mode request = ''selected-text'' \<and> \<not> truthy (selected_text request)
          then Inl (HTTPException 500)
          else (case process_query env request of
                  Inl ValidationError \<Rightarrow> Inl (HTTPException 400)
                | Inl e \<Rightarrow> Inl (HTTPException 500)
                | Inr response \<Rightarrow> Inr response))"

section \<open>Example data\<close>

text \<open>
  The rounding of the binary64 format, for the examples: round to nearest, ties to
  even, with a significand of 53 bits and the subnormal numbers below \<open>2 ^ - 1022\<close>.
  Values beyond the largest float are not treated.
\<close>

definition pow2 :: "int \<Rightarrow> real" where
  "pow2 e = (if 0 \<le> e then 2 ^ nat e else 1 / 2 ^ nat (- e))"

function exponent_down :: "real \<Rightarrow> int \<Rightarrow> int" where
  "exponent_down y e = (if 2 \<le> y then exponent_down (y / 2) (e + 1) else e)"
  by pat_completeness auto
termination
proof (relation "measure (\<lambda>(y, e). nat \<lfloor>y\<rfloor>)")
  show "wf (measure (\<lambda>(y::real, e::int). nat \<lfloor>y\<rfloor>))" by simp
next
  fix y :: real and e :: int
  assume a: "2 \<le> y"
  have "of_int \<lfloor>y / 2\<rfloor> \<le> y / 2" by (rule of_int_floor_le)
  moreover have "y / 2 \<le> y - 1" using a by simp
  moreover have "y - 1 < of_int \<lfloor>y\<rfloor>" by linarith
  ultimately have "of_int \<lfloor>y / 2\<rfloor> < (of_int \<lfloor>y\<rfloor> :: real)" by linarith
  then have "\<lfloor>y / 2\<rfloor> < \<lfloor>y\<rfloor>" by simp
  moreover have "0 < \<lfloor>y\<rfloor>" using a by linarith
  ultimately show "((y / 2, e + 1), (y, e)) \<in> measure (\<lambda>(y, e). nat \<lfloor>y\<rfloor>)" by simp
qed

function exponent_up :: "real \<Rightarrow> int \<Rightarrow> int" where
  "exponent_up y e = (if y < 1 \<and> - 1022 < e then exponent_up (y * 2) (e - 1) else e)"
  by pat_completeness auto
termination
  by (relation "measure (\<lambda>(y, e). nat (e + 1022))") auto

definition binary_exponent :: "real \<Rightarrow> int" where
  \<comment> \<open>for \<open>y > 0\<close>, the exponent \<open>e\<close> with \<open>2 ^ e \<le> y < 2 ^ (e + 1)\<close>, not below \<open>- 1022\<close>\<close>
  "binary_exponent y = (if 2 \<le> y then exponent_down y 0 else exponent_up y 0)"

definition round_half_even :: "real \<Rightarrow> int" where
  "round_half_even q =
     (let f = \<lfloor>q\<rfloor>; d = q - of_int f
      in if d < 1 / 2 then f else if 1 / 2 < d then f + 1 else if even f then f else f + 1)"

definition round_binary64 :: "real \<Rightarrow> real" where
  "round_binary64 x =
     (if x = 0 then 0
      else
        (let ulp = pow2 (binary_exponent \<bar>x\<bar> - 52)
         in sgn x * of_int (round_half_even (\<bar>x\<bar> / ulp)) * ulp))"

definition chunk_short :: chunk where
  "chunk_short =
     \<lparr>point_id = 1, score = 0.8,
      payload = map_of [(''chunk_text'', ''humanoid robots'')],
      combined_score = None, text_overlap = None\<rparr>"

definition chunk_long :: chunk where
  "chunk_long =
     \<lparr>point_id = 2, score = 0.6,
      payload = map_of [(''chunk_text'', ''humanoid robots walking upright today'')],
      combined_score = None, text_overlap = None\<rparr>"

definition chunk_balance :: chunk where
  "chunk_balance =
     \<lparr>point_id = 1, score = 0.9,
      payload = map_of [(''chunk_text'', ''walking robots keep balance'')],
      combined_score = None, text_overlap = None\<rparr>"

definition chunk_humanoid :: chunk where
  "chunk_humanoid =
     \<lparr>point_id = 2, score = 0.7,
      payload = map_of [(''chunk_text'', ''Humanoid robots walking'')],
      combined_score = None, text_overlap = None\<rparr>"

definition chunk_legs :: chunk where
  "chunk_legs =
     \<lparr>point_id = 3, score = 0.8,
      payload = map_of [(''chunk_text'', ''humanoid robots walking on legs''),
                        (''chapter_id'', ''ch-02'')],
      combined_score = None, text_overlap = None\<rparr>"

definition chunk_two :: chunk where
  "chunk_two =
     \<lparr>point_id = 4, score = 0.75,
      payload = map_of [(''chunk_text'', ''two legs walking robots'')],
      combined_score = None, text_overlap = None\<rparr>"

definition chunk_steps :: chunk where
  "chunk_steps =
     \<lparr>point_id = 5, score = 0.7,
      payload = map_of [(''chunk_text'', ''robots walking on two legs take steps'')],
      combined_score = None, text_overlap = None\<rparr>"

definition example_services :: services where
  \<comment> \<open>an index of four points that returns its best \<open>limit\<close> points, a constant
      embedding and a constant completion\<close>
  "example_services =
     \<lparr>generate_embedding = (\<lambda>t. Inr [1, 0]),
      vector_search = (\<lambda>v limit threshold.
         Inr (py_take [chunk_balance, chunk_legs, chunk_two, chunk_steps] limit)),
      chat_completion = (\<lambda>system_prompt user_message max_tokens.
         Inr (Some ''According to Source 1, they walk.'')),
      format_score = (\<lambda>x. ''0.80''),
      float_round = round_binary64\<rparr>"

definition example_selection :: string where
  "example_selection =
     ''humanoid robots walking on two legs need balance control and careful planning '' @
     ''of every step they take across rough uneven ground''"

definition example_request :: QueryRequest where
  "example_request =
     \<lparr>query_text = ''How do they walk?'', query_mode = ''selected-text'', session_id = None,
      selected_text = Some example_selection, max_results = 2\<rparr>"

section \<open>Facts about the string primitives\<close>

lemma str_strip_empty_iff: "str_strip s = [] \<longleftrightarrow> list_all isspace s"
proof -
  have "dropWhile isspace (rev (dropWhile isspace s)) = [] \<longleftrightarrow> dropWhile isspace s = []"
  proof
    assume a: "dropWhile isspace (rev (dropWhile isspace s)) = []"
    show "dropWhile isspace s = []"
    proof (rule ccontr)
      assume b: "dropWhile isspace s \<noteq> []"
      then have "\<not> isspace (hd (dropWhile isspace s))" by (rule hd_dropWhile)
      moreover have "hd (dropWhile isspace s) \<in> set (rev (dropWhile isspace s))" using b by simp
      ultimately show False using a by (auto simp: dropWhile_eq_Nil_conv)
    qed
  next
    assume "dropWhile isspace s = []"
    then show "dropWhile isspace (rev (dropWhile isspace s)) = []"
      by (simp only: rev.simps dropWhile.simps)
  qed
  moreover have "str_strip s = [] \<longleftrightarrow> dropWhile isspace (rev (dropWhile isspace s)) = []"
    unfolding str_strip_def by (rule rev_is_Nil_conv)
  moreover have "dropWhile isspace s = [] \<longleftrightarrow> list_all isspace s"
    unfolding list_all_iff by (rule dropWhile_eq_Nil_conv)
  ultimately show ?thesis by blast
qed

lemma split_acc_empty_iff: "split_acc cur s = [] \<longleftrightarrow> cur = [] \<and> list_all isspace s"
  by (induction s arbitrary: cur) auto

lemma str_split_empty_iff: "str_split s = [] \<longleftrightarrow> list_all isspace s"
  by (simp add: str_split_def split_acc_empty_iff)

lemma str_contains_iff: "str_contains needle hay \<longleftrightarrow> (\<exists>p s. hay = p @ needle @ s)"
proof (induction hay)
  case Nil
  then show ?case by auto
next
  case (Cons c cs)
  show ?case
  proof
    assume "str_contains needle (c # cs)"
    then consider "prefix needle (c # cs)" | "str_contains needle cs" by auto
    then show "\<exists>p s. c # cs = p @ needle @ s"
    proof cases
      case 1
      then obtain s where "c # cs = needle @ s" by (auto simp: prefix_def)
      then have "c # cs = [] @ needle @ s" by simp
      then show ?thesis by blast
    next
      case 2
      then obtain p s where "cs = p @ needle @ s" using Cons.IH by blast
      then have "c # cs = (c # p) @ needle @ s" by simp
      then show ?thesis by blast
    qed
  next
    assume "\<exists>p s. c # cs = p @ needle @ s"
    then obtain p s where e: "c # cs = p @ needle @ s" by blast
    show "str_contains needle (c # cs)"
    proof (cases p)
      case Nil
      then have "prefix needle (c # cs)" using e by (simp add: prefix_def)
      then show ?thesis by simp
    next
      case (Cons a p')
      then have "cs = p' @ needle @ s" using e by simp
      then have "str_contains needle cs" using Cons.IH by blast
      then show ?thesis by simp
    qed
  qed
qed

section \<open>The chunker\<close>

lemma sliding_windows_more:
  "overlap < wsize \<Longrightarrow> start + wsize < n \<Longrightarrow>
     sliding_windows wsize overlap n start =
       (start, start + wsize) # sliding_windows wsize overlap n (start + wsize - overlap)"
  by (subst sliding_windows.simps) simp

lemma sliding_windows_final:
  "\<not> (overlap < wsize \<and> start + wsize < n) \<Longrightarrow>
     sliding_windows wsize overlap n start = [(start, n)]"
  by (subst sliding_windows.simps) simp

lemma chunk_loop_windows:
  assumes "0 \<le> overlap_size self" "overlap_size self < chunk_size self"
  shows "start < length words \<Longrightarrow>
    chunk_loop self words (int start) chunks =
      Some (chunks @ map (\<lambda>w. emit_chunk self words (int (fst w)))
              (sliding_windows (nat (chunk_size self)) (nat (overlap_size self)) (length words) start))"
proof (induction "nat (chunk_size self)" "nat (overlap_size self)" "length words" start
        arbitrary: chunks rule: sliding_windows.induct)
  case (1 start)
  let ?cs = "nat (chunk_size self)" and ?ov = "nat (overlap_size self)"
  let ?emit = "\<lambda>w. emit_chunk self words (int (fst w))"
  have h1: "int start < int (length words)" using "1.prems" by simp
  show ?case
  proof (cases "start + ?cs < length words")
    case True
    have e: "window_end self words (int start) = int start + chunk_size self"
      using assms True by (simp add: window_end_def)
    have h2: "\<not> int (length words) \<le> int start + chunk_size self"
      using assms True by linarith
    have nxt: "int start + chunk_size self - overlap_size self = int (start + ?cs - ?ov)"
      using assms by linarith
    have lt: "start + ?cs - ?ov < length words"
      using True by arith
    have c1: "?ov < ?cs" using assms by linarith
    have c: "?ov < ?cs \<and> start + ?cs < length words"
      using True c1 by simp
    have "chunk_loop self words (int start) chunks =
            chunk_loop self words (int start + chunk_size self - overlap_size self)
              (chunks @ [emit_chunk self words (int start)])"
      by (subst chunk_loop.simps) (simp only: e h1 h2 if_True if_False)
    also have "\<dots> = chunk_loop self words (int (start + ?cs - ?ov))
              (chunks @ [emit_chunk self words (int start)])"
      by (simp only: nxt)
    also have "\<dots> = Some ((chunks @ [emit_chunk self words (int start)]) @
              map ?emit (sliding_windows ?cs ?ov (length words) (start + ?cs - ?ov)))"
      by (rule "1.hyps"[OF c lt])
    also have "\<dots> = Some (chunks @ map ?emit (sliding_windows ?cs ?ov (length words) start))"
      using sliding_windows_more[OF c1 True] by simp
    finally show ?thesis .
  next
    case False
    have e: "int (length words) \<le> window_end self words (int start)"
      using assms False unfolding window_end_def by linarith
    have "\<not> (?ov < ?cs \<and> start + ?cs < length words)" using False by simp
    then have w: "sliding_windows ?cs ?ov (length words) start = [(start, length words)]"
      by (rule sliding_windows_final)
    have "chunk_loop self words (int start) chunks =
            Some (chunks @ [emit_chunk self words (int start)])"
      by (subst chunk_loop.simps) (simp only: e h1 if_True)
    then show ?thesis by (simp add: w)
  qed
qed

lemma chunk_loop_diverges_aux:
  "chunk_loop s w st c = Some y \<Longrightarrow>
     \<not> (chunk_size s \<le> overlap_size s \<and> st + chunk_size s < int (length w) \<and> st \<le> 0
        \<and> 0 < length w)"
proof (rule chunk_loop.raw_induct[where P = "\<lambda>s w st c y.
     \<not> (chunk_size s \<le> overlap_size s \<and> st + chunk_size s < int (length w) \<and> st \<le> 0
        \<and> 0 < length w)"])
  fix f :: "TextChunker \<Rightarrow> string list \<Rightarrow> int \<Rightarrow> string list \<Rightarrow> string list option"
    and s w st c y
  assume IH: "\<And>s w st c y. f s w st c = Some y \<Longrightarrow>
     \<not> (chunk_size s \<le> overlap_size s \<and> st + chunk_size s < int (length w) \<and> st \<le> 0
        \<and> 0 < length w)"
  assume step: "(if st < int (length w)
      then if int (length w) \<le> window_end s w st
           then Some (c @ [emit_chunk s w st])
           else f s w (window_end s w st - overlap_size s) (c @ [emit_chunk s w st])
      else Some c) = Some y"
  show "\<not> (chunk_size s \<le> overlap_size s \<and> st + chunk_size s < int (length w) \<and> st \<le> 0
        \<and> 0 < length w)"
  proof
    assume a: "chunk_size s \<le> overlap_size s \<and> st + chunk_size s < int (length w) \<and> st \<le> 0
        \<and> 0 < length w"
    then have e: "window_end s w st = st + chunk_size s"
      by (simp add: window_end_def)
    have "f s w (st + chunk_size s - overlap_size s) (c @ [emit_chunk s w st]) = Some y"
      using step a by (simp add: e)
    from IH[OF this] show False using a by simp
  qed
next
  show "chunk_loop s w st c = Some y" if "chunk_loop s w st c = Some y"
    using that .
qed

lemma chunk_loop_diverges:
  assumes "chunk_size self \<le> overlap_size self" "chunk_size self < int (length words)"
    "words \<noteq> []"
  shows "chunk_loop self words 0 chunks = None"
proof (cases "chunk_loop self words 0 chunks")
  case (Some y)
  then show ?thesis using chunk_loop_diverges_aux[OF Some] assms by simp
qed simp


lemma sliding_windows_hd_snd:
  assumes "overlap < wsize" "s < n"
  shows "snd (hd (sliding_windows wsize overlap n s)) = min (s + wsize) n"
proof (cases "s + wsize < n")
  case True
  from sliding_windows_more[OF assms(1) True] show ?thesis using True by simp
next
  case False
  then have "\<not> (overlap < wsize \<and> s + wsize < n)" by simp
  from sliding_windows_final[OF this] show ?thesis using False by simp
qed

lemma sliding_windows_hd: "fst (hd (sliding_windows wsize overlap n start)) = start"
  by (subst sliding_windows.simps) simp

lemma sliding_windows_nonempty: "sliding_windows wsize overlap n start \<noteq> []"
  by (subst sliding_windows.simps) simp

lemma sliding_windows_last: "snd (last (sliding_windows wsize overlap n start)) = n"
proof (induction wsize overlap n start rule: sliding_windows.induct)
  case (1 wsize overlap n start)
  show ?case
    apply (subst sliding_windows.simps)
    using 1 by (simp add: sliding_windows_nonempty)
qed

lemma sliding_windows_bounds:
  "start < n \<Longrightarrow> w \<in> set (sliding_windows wsize overlap n start) \<Longrightarrow>
     start \<le> fst w \<and> fst w < snd w \<and> snd w \<le> n"
proof (induction wsize overlap n start rule: sliding_windows.induct)
  case (1 wsize overlap n start)
  show ?case
  proof (cases "overlap < wsize \<and> start + wsize < n")
    case True
    from "1.prems"(2) have "w = (start, start + wsize) \<or>
        w \<in> set (sliding_windows wsize overlap n (start + wsize - overlap))"
      by (subst (asm) sliding_windows.simps) (simp add: True)
    then show ?thesis
    proof
      assume "w = (start, start + wsize)"
      then show ?thesis using True by simp
    next
      assume m: "w \<in> set (sliding_windows wsize overlap n (start + wsize - overlap))"
      have "start + wsize - overlap < n" using True by arith
      from "1.IH"[OF True this m] show ?thesis using True by arith
    qed
  next
    case False
    from "1.prems"(2) have "w = (start, n)"
      by (subst (asm) sliding_windows.simps) (simp add: False)
    then show ?thesis using "1.prems"(1) by simp
  qed
qed

lemma sliding_windows_cover:
  "start \<le> j \<Longrightarrow> j < n \<Longrightarrow>
     \<exists>w \<in> set (sliding_windows wsize overlap n start). fst w \<le> j \<and> j < snd w"
proof (induction wsize overlap n start rule: sliding_windows.induct)
  case (1 wsize overlap n start)
  show ?case
  proof (cases "overlap < wsize \<and> start + wsize < n")
    case True
    show ?thesis
    proof (cases "j < start + wsize")
      case True
      then show ?thesis using "1.prems"
        by (subst sliding_windows.simps) auto
    next
      case False
      then have "start + wsize - overlap \<le> j" by arith
      from "1.IH"[OF True this "1.prems"(2)] show ?thesis
        by (subst sliding_windows.simps) (auto simp: True)
    qed
  next
    case False
    then show ?thesis using "1.prems"
      by (subst sliding_windows.simps) auto
  qed
qed

lemma sliding_windows_step:
  "overlap < wsize \<Longrightarrow> Suc i < length (sliding_windows wsize overlap n start) \<Longrightarrow>
     snd (sliding_windows wsize overlap n start ! i)
       = fst (sliding_windows wsize overlap n start ! i) + wsize \<and>
     fst (sliding_windows wsize overlap n start ! Suc i)
       = snd (sliding_windows wsize overlap n start ! i) - overlap \<and>
     snd (sliding_windows wsize overlap n start ! i)
       \<le> snd (sliding_windows wsize overlap n start ! Suc i)"
proof (induction wsize overlap n start arbitrary: i rule: sliding_windows.induct)
  case (1 wsize overlap n start)
  let ?rest = "sliding_windows wsize overlap n (start + wsize - overlap)"
  show ?case
  proof (cases "overlap < wsize \<and> start + wsize < n")
    case True
    then have unf: "sliding_windows wsize overlap n start = (start, start + wsize) # ?rest"
      by (subst sliding_windows.simps) simp
    show ?thesis
    proof (cases i)
      case 0
      have h: "?rest ! 0 = hd ?rest" by (simp add: hd_conv_nth sliding_windows_nonempty)
      have lt: "start + wsize - overlap < n" using True by arith
      have "hd ?rest \<in> set ?rest" by (simp add: sliding_windows_nonempty)
      from sliding_windows_bounds[OF lt this] sliding_windows_hd[of wsize overlap n "start + wsize - overlap"]
      have "fst (hd ?rest) = start + wsize - overlap" and "snd (hd ?rest) \<le> n" by auto
      moreover have "snd (hd ?rest) = min (start + wsize - overlap + wsize) n"
        using "1.prems"(1) lt by (rule sliding_windows_hd_snd)
      then have "start + wsize \<le> snd (hd ?rest)" using True by arith
      ultimately show ?thesis using 0 unf h by simp
    next
      case (Suc k)
      have "Suc k < length ?rest" using "1.prems"(2) unf Suc by simp
      from "1.IH"[OF True "1.prems"(1) this] show ?thesis using unf Suc by simp
    qed
  next
    case False
    then have "sliding_windows wsize overlap n start = [(start, n)]"
      by (subst sliding_windows.simps) simp
    then show ?thesis using "1.prems"(2) by simp
  qed
qed

lemma sliding_windows_length:
  "overlap < wsize \<Longrightarrow>
     length (sliding_windows wsize overlap n start) \<le> (n - start) div (wsize - overlap) + 1"
proof (induction wsize overlap n start rule: sliding_windows.induct)
  case (1 wsize overlap n start)
  show ?case
  proof (cases "overlap < wsize \<and> start + wsize < n")
    case True
    let ?d = "wsize - overlap"
    let ?rest = "sliding_windows wsize overlap n (start + wsize - overlap)"
    define a where "a = (n - (start + wsize - overlap)) div ?d"
    define b where "b = (n - start) div ?d"
    have d0: "?d \<noteq> 0" using True by simp
    have "n - start = (n - (start + wsize - overlap)) + ?d" using True by arith
    then have "(n - start) div ?d = ((n - (start + wsize - overlap)) + ?d) div ?d"
      by (simp only:)
    also have "\<dots> = (n - (start + wsize - overlap)) div ?d + 1"
      using d0 by (rule div_add_self2)
    finally have ba: "b = a + 1" unfolding a_def b_def .
    have "length ?rest \<le> a + 1"
      unfolding a_def by (rule "1.IH"[OF True "1.prems"])
    moreover have "sliding_windows wsize overlap n start = (start, start + wsize) # ?rest"
      using True sliding_windows_more by blast
    ultimately have "length (sliding_windows wsize overlap n start) \<le> b + 1"
      using ba by simp
    then show ?thesis unfolding b_def .
  next
    case False
    then show ?thesis using sliding_windows_final[of overlap wsize start n] by simp
  qed
qed

lemma sliding_windows_snd:
  "overlap < wsize \<Longrightarrow> start < n \<Longrightarrow> w \<in> set (sliding_windows wsize overlap n start) \<Longrightarrow>
     snd w = min (fst w + wsize) n"
proof (induction wsize overlap n start rule: sliding_windows.induct)
  case (1 wsize overlap n start)
  show ?case
  proof (cases "overlap < wsize \<and> start + wsize < n")
    case True
    then have "w = (start, start + wsize) \<or>
        w \<in> set (sliding_windows wsize overlap n (start + wsize - overlap))"
      using "1.prems"(3) sliding_windows_more[of overlap wsize start n] by auto
    then show ?thesis
    proof
      assume "w = (start, start + wsize)"
      then show ?thesis using True by simp
    next
      assume m: "w \<in> set (sliding_windows wsize overlap n (start + wsize - overlap))"
      have "start + wsize - overlap < n" using True by arith
      from "1.IH"[OF True "1.prems"(1) this m] show ?thesis .
    qed
  next
    case False
    then have "w = (start, n)"
      using "1.prems"(3) sliding_windows_final[of overlap wsize start n] by simp
    then show ?thesis using False "1.prems"(1) by simp
  qed
qed

lemma window_words_slice:
  assumes "0 \<le> chunk_size self" "s \<le> length words" "e = min (s + nat (chunk_size self)) (length words)"
  shows "window_words self words (int s) = take (e - s) (drop s words)"
proof -
  have "window_end self words (int s) = int e"
    using assms unfolding window_end_def by linarith
  moreover have "slice_index (length words) (int s) = s"
    using assms by (simp add: slice_index_def)
  moreover have "slice_index (length words) (int e) = e"
    using assms by (simp add: slice_index_def)
  ultimately show ?thesis
    by (simp add: window_words_def py_slice_def)
qed

lemma chunk_loop_advance:
  assumes "start + chunk_size self < int (length words)" "0 \<le> chunk_size self"
  shows "chunk_loop self words start chunks =
           chunk_loop self words (start + (chunk_size self - overlap_size self))
             (chunks @ [emit_chunk self words start])"
proof -
  have e: "window_end self words start = start + chunk_size self"
    using assms by (simp add: window_end_def)
  have h1: "start < int (length words)" using assms by linarith
  have h2: "\<not> int (length words) \<le> start + chunk_size self" using assms by linarith
  have a: "start + chunk_size self - overlap_size self = start + (chunk_size self - overlap_size self)"
    by simp
  show ?thesis
    by (subst chunk_loop.simps) (simp only: e h1 h2 a if_True if_False)
qed

text \<open>
  Claim C5. For an empty or whitespace-only input \<open>chunk_text\<close> returns the empty list,
  and for a non-blank input whose word count is at most \<open>chunk_size\<close> it returns
  exactly one chunk, the whole input text.
\<close>

theorem chunk_text_blank_or_small:
  "(list_all isspace text \<longrightarrow> chunk_text self text = Some []) \<and>
   (\<not> list_all isspace text \<and> int (length (str_split text)) \<le> chunk_size self
      \<longrightarrow> chunk_text self text = Some [text])"
  by (simp add: chunk_text_def str_strip_empty_iff)

theorem chunk_text_blank_or_small_witness:
  "list_all isspace [CHR 0x20, CHR 0x0A, CHR 0x20] \<and>
   chunk_text \<lparr>chunk_size = 500, overlap_size = 100, respect_boundaries = True\<rparr>
     [CHR 0x20, CHR 0x0A, CHR 0x20] = Some [] \<and>
   chunk_text \<lparr>chunk_size = 500, overlap_size = 100, respect_boundaries = True\<rparr> [] = Some [] \<and>
   \<not> list_all isspace '' hello world'' \<and>
   int (length (str_split '' hello world''))
     \<le> chunk_size \<lparr>chunk_size = 500, overlap_size = 100, respect_boundaries = True\<rparr> \<and>
   chunk_text \<lparr>chunk_size = 500, overlap_size = 100, respect_boundaries = True\<rparr> '' hello world''
     = Some ['' hello world'']"
  using chunk_text_blank_or_small[of "[CHR 0x20, CHR 0x0A, CHR 0x20]"
          "\<lparr>chunk_size = 500, overlap_size = 100, respect_boundaries = True\<rparr>"]
        chunk_text_blank_or_small[of "[]"
          "\<lparr>chunk_size = 500, overlap_size = 100, respect_boundaries = True\<rparr>"]
        chunk_text_blank_or_small[of "'' hello world''"
          "\<lparr>chunk_size = 500, overlap_size = 100, respect_boundaries = True\<rparr>"]
  by (simp add: isspace_def whitespace_chars_def str_split_def)

text \<open>
  Claim C4. When the text has more than \<open>chunk_size\<close> words and
  \<open>0 \<le> overlap_size < chunk_size\<close>, \<open>chunk_text\<close> returns and emits one chunk per
  sliding window, whatever \<open>respect_boundaries\<close> is. The words of a window before
  trimming are \<open>words[start:end]\<close>; the first window starts at word 0; every window but
  the last has \<open>chunk_size\<close> words; each next window starts \<open>chunk_size - overlap_size\<close>
  words further, which is the untrimmed end of the window before it minus
  \<open>overlap_size\<close>; two consecutive windows share exactly \<open>overlap_size\<close> word
  positions; the last window ends at the last word; and every word position lies in
  some window.
\<close>

theorem chunk_text_sliding_windows:
  assumes ov0: "0 \<le> overlap_size self" and ovlt: "overlap_size self < chunk_size self"
    and big: "chunk_size self < int (length (str_split text))"
  shows "let words = str_split text;
             ws = sliding_windows (nat (chunk_size self)) (nat (overlap_size self)) (length words) 0
         in chunk_text self text = Some (map (\<lambda>w. emit_chunk self words (int (fst w))) ws) \<and>
            (\<forall>w \<in> set ws. window_words self words (int (fst w))
                              = take (snd w - fst w) (drop (fst w) words)) \<and>
            fst (hd ws) = 0 \<and>
            (\<forall>i. Suc i < length ws \<longrightarrow>
                 snd (ws ! i) = fst (ws ! i) + nat (chunk_size self) \<and>
                 fst (ws ! Suc i) = fst (ws ! i) + (nat (chunk_size self) - nat (overlap_size self)) \<and>
                 fst (ws ! Suc i) = snd (ws ! i) - nat (overlap_size self) \<and>
                 card ({fst (ws ! i)..<snd (ws ! i)} \<inter> {fst (ws ! Suc i)..<snd (ws ! Suc i)})
                   = nat (overlap_size self)) \<and>
            snd (last ws) = length words \<and>
            (\<forall>j < length words. \<exists>w \<in> set ws. fst w \<le> j \<and> j < snd w)"
proof -
  define words where "words = str_split text"
  define cs where "cs = nat (chunk_size self)"
  define ov where "ov = nat (overlap_size self)"
  define ws where "ws = sliding_windows cs ov (length words) 0"
  have ovcs: "ov < cs" using ov0 ovlt by (simp add: cs_def ov_def)
  have "0 < int (length (str_split text))" using big ov0 ovlt by linarith
  then have pos: "0 < length words" by (simp add: words_def)
  have nonblank: "str_strip text \<noteq> []"
    using pos by (simp add: words_def str_strip_empty_iff str_split_empty_iff[symmetric])
  have 1: "chunk_text self text = Some (map (\<lambda>w. emit_chunk self words (int (fst w))) ws)"
  proof -
    have "chunk_text self text = chunk_loop self words 0 []"
      using big nonblank by (simp add: chunk_text_def words_def)
    also have "\<dots> = Some ([] @ map (\<lambda>w. emit_chunk self words (int (fst w))) ws)"
      using chunk_loop_windows[OF ov0 ovlt pos, of "[]"] by (simp add: ws_def cs_def ov_def)
    finally show ?thesis by simp
  qed
  have 2: "window_words self words (int (fst w)) = take (snd w - fst w) (drop (fst w) words)"
    if "w \<in> set ws" for w
  proof -
    have "snd w = min (fst w + cs) (length words)"
      using sliding_windows_snd[OF ovcs pos] that by (simp add: ws_def)
    moreover have "fst w \<le> length words"
      using sliding_windows_bounds[OF pos] that unfolding ws_def by fastforce
    moreover have "0 \<le> chunk_size self" using ov0 ovlt by simp
    ultimately show ?thesis
      using window_words_slice[of self "fst w" words "snd w"] by (simp add: cs_def)
  qed
  have 3: "fst (hd ws) = 0" by (simp add: ws_def sliding_windows_hd)
  have 4: "snd (ws ! i) = fst (ws ! i) + cs \<and>
           fst (ws ! Suc i) = fst (ws ! i) + (cs - ov) \<and>
           fst (ws ! Suc i) = snd (ws ! i) - ov \<and>
           card ({fst (ws ! i)..<snd (ws ! i)} \<inter> {fst (ws ! Suc i)..<snd (ws ! Suc i)}) = ov"
    if "Suc i < length ws" for i
  proof -
    from sliding_windows_step[OF ovcs, of i "length words" 0] that
    have a: "snd (ws ! i) = fst (ws ! i) + cs" and b: "fst (ws ! Suc i) = snd (ws ! i) - ov"
      and c: "snd (ws ! i) \<le> snd (ws ! Suc i)"
      by (simp_all add: ws_def)
    have "{fst (ws ! i)..<snd (ws ! i)} \<inter> {fst (ws ! Suc i)..<snd (ws ! Suc i)}
            = {fst (ws ! Suc i)..<snd (ws ! i)}"
      using a b c ovcs by auto
    then have "card ({fst (ws ! i)..<snd (ws ! i)} \<inter> {fst (ws ! Suc i)..<snd (ws ! Suc i)}) = ov"
      using a b ovcs by simp
    then show ?thesis using a b ovcs by simp
  qed
  have 5: "snd (last ws) = length words" by (simp add: ws_def sliding_windows_last)
  have 6: "\<exists>w \<in> set ws. fst w \<le> j \<and> j < snd w" if "j < length words" for j
    using sliding_windows_cover[of 0 j "length words" cs ov] that by (simp add: ws_def)
  show ?thesis
    unfolding Let_def words_def[symmetric] cs_def[symmetric] ov_def[symmetric] ws_def[symmetric]
    using 1 2 3 4 5 6 by blast
qed


lemmas chunker_eval =
  isspace_def whitespace_chars_def str_split_def str_strip_def
  window_end_def window_words_def emit_chunk_def py_slice_def slice_index_def
  adjust_to_boundary_def sentence_end_def sliding_windows.simps

theorem chunk_text_sliding_windows_witness:
  "0 \<le> overlap_size \<lparr>chunk_size = 4, overlap_size = 1, respect_boundaries = True\<rparr> \<and>
   overlap_size \<lparr>chunk_size = 4, overlap_size = 1, respect_boundaries = True\<rparr>
     < chunk_size \<lparr>chunk_size = 4, overlap_size = 1, respect_boundaries = True\<rparr> \<and>
   chunk_size \<lparr>chunk_size = 4, overlap_size = 1, respect_boundaries = True\<rparr>
     < int (length (str_split ''a b c. d e f g h'')) \<and>
   sliding_windows 4 1 8 0 = [(0, 4), (3, 7), (6, 8)] \<and>
   chunk_text \<lparr>chunk_size = 4, overlap_size = 1, respect_boundaries = True\<rparr> ''a b c. d e f g h''
     = Some [''a b c.'', ''d e f g'', ''g h'']"
proof -
  let ?cfg = "\<lparr>chunk_size = 4, overlap_size = 1, respect_boundaries = True\<rparr>"
  have h1: "0 \<le> overlap_size ?cfg" by simp
  have h2: "overlap_size ?cfg < chunk_size ?cfg" by simp
  have w: "str_split ''a b c. d e f g h'' = [''a'', ''b'', ''c.'', ''d'', ''e'', ''f'', ''g'', ''h'']"
    by (simp add: chunker_eval)
  have h3: "chunk_size ?cfg < int (length (str_split ''a b c. d e f g h''))"
    by (simp add: w)
  have sw: "sliding_windows 4 1 8 0 = [(0, 4), (3, 7), (6, 8)]"
    by (simp add: sliding_windows.simps)
  have sw': "sliding_windows (nat (chunk_size ?cfg)) (nat (overlap_size ?cfg))
               (length (str_split ''a b c. d e f g h'')) 0 = [(0, 4), (3, 7), (6, 8)]"
    by (simp add: w sliding_windows.simps)
  have "chunk_text ?cfg ''a b c. d e f g h'' =
          Some (map (\<lambda>w. emit_chunk ?cfg (str_split ''a b c. d e f g h'') (int (fst w)))
                  (sliding_windows (nat (chunk_size ?cfg)) (nat (overlap_size ?cfg))
                     (length (str_split ''a b c. d e f g h'')) 0))"
    using chunk_text_sliding_windows[OF h1 h2 h3] unfolding Let_def by (rule conjunct1)
  also have "\<dots> = Some [''a b c.'', ''d e f g'', ''g h'']"
    unfolding sw' w by (simp add: chunker_eval)
  finally show ?thesis using h1 h2 h3 sw by blast
qed

text \<open>
  Claim C10. With \<open>0 \<le> overlap_size < chunk_size\<close>, \<open>chunk_text\<close> returns for every
  text, and the number of chunks is at most the word count divided by
  \<open>chunk_size - overlap_size\<close>, plus one; an iteration that is not the last one
  continues the loop with the start index advanced by exactly
  \<open>chunk_size - overlap_size\<close>. With \<open>overlap_size \<ge> chunk_size\<close> and a non-blank text
  of more than \<open>chunk_size\<close> words the loop never returns.
\<close>

theorem chunk_text_terminates:
  "(0 \<le> overlap_size self \<and> overlap_size self < chunk_size self \<longrightarrow>
      (\<exists>chunks. chunk_text self text = Some chunks \<and>
         length chunks \<le> length (str_split text) div nat (chunk_size self - overlap_size self) + 1) \<and>
      (\<forall>words start chunks. start + chunk_size self < int (length words) \<longrightarrow>
         chunk_loop self words start chunks =
           chunk_loop self words (start + (chunk_size self - overlap_size self))
             (chunks @ [emit_chunk self words start]))) \<and>
   (chunk_size self \<le> overlap_size self \<and> chunk_size self < int (length (str_split text)) \<and>
      \<not> list_all isspace text \<longrightarrow> chunk_text self text = None)"
proof (intro conjI impI allI)
  assume a: "0 \<le> overlap_size self \<and> overlap_size self < chunk_size self"
  let ?n = "length (str_split text)"
  let ?d = "nat (chunk_size self - overlap_size self)"
  show "\<exists>chunks. chunk_text self text = Some chunks \<and> length chunks \<le> ?n div ?d + 1"
  proof (cases "str_strip text = [] \<or> int ?n \<le> chunk_size self")
    case True
    then show ?thesis by (auto simp: chunk_text_def)
  next
    case False
    then have big: "chunk_size self < int ?n" by simp
    let ?ws = "sliding_windows (nat (chunk_size self)) (nat (overlap_size self)) ?n 0"
    have pos: "0 < ?n" using big a by linarith
    have "chunk_text self text = chunk_loop self (str_split text) 0 []"
      using False by (simp add: chunk_text_def)
    also have "\<dots> = Some ([] @ map (\<lambda>w. emit_chunk self (str_split text) (int (fst w))) ?ws)"
      using chunk_loop_windows[of self 0 "str_split text" "[]"] a pos by simp
    finally have r: "chunk_text self text
        = Some (map (\<lambda>w. emit_chunk self (str_split text) (int (fst w))) ?ws)" by simp
    have "nat (overlap_size self) < nat (chunk_size self)" using a by linarith
    then have "length ?ws \<le> (?n - 0) div (nat (chunk_size self) - nat (overlap_size self)) + 1"
      by (rule sliding_windows_length)
    moreover have "nat (chunk_size self) - nat (overlap_size self) = ?d"
      using a by linarith
    ultimately have "length ?ws \<le> ?n div ?d + 1" by simp
    then show ?thesis using r by simp
  qed
next
  fix words :: "string list" and start :: int and chunks :: "string list"
  assume a: "0 \<le> overlap_size self \<and> overlap_size self < chunk_size self"
    and b: "start + chunk_size self < int (length words)"
  from a have "0 \<le> chunk_size self" by simp
  with b show "chunk_loop self words start chunks =
           chunk_loop self words (start + (chunk_size self - overlap_size self))
             (chunks @ [emit_chunk self words start])"
    by (rule chunk_loop_advance)
next
  assume a: "chunk_size self \<le> overlap_size self \<and> chunk_size self < int (length (str_split text)) \<and>
      \<not> list_all isspace text"
  then have ne: "str_split text \<noteq> []" by (simp add: str_split_empty_iff)
  have "chunk_text self text = chunk_loop self (str_split text) 0 []"
    using a by (simp add: chunk_text_def str_strip_empty_iff)
  also have "\<dots> = None"
    using a ne by (intro chunk_loop_diverges) simp_all
  finally show "chunk_text self text = None" .
qed

theorem chunk_text_terminates_witness:
  "0 \<le> overlap_size \<lparr>chunk_size = 4, overlap_size = 1, respect_boundaries = True\<rparr> \<and>
   overlap_size \<lparr>chunk_size = 4, overlap_size = 1, respect_boundaries = True\<rparr>
     < chunk_size \<lparr>chunk_size = 4, overlap_size = 1, respect_boundaries = True\<rparr> \<and>
   chunk_text \<lparr>chunk_size = 4, overlap_size = 1, respect_boundaries = True\<rparr> ''a b c. d e f g h''
     \<noteq> None \<and>
   length (the (chunk_text \<lparr>chunk_size = 4, overlap_size = 1, respect_boundaries = True\<rparr>
                  ''a b c. d e f g h'')) \<le> 3 \<and>
   chunk_size \<lparr>chunk_size = 2, overlap_size = 2, respect_boundaries = True\<rparr>
     \<le> overlap_size \<lparr>chunk_size = 2, overlap_size = 2, respect_boundaries = True\<rparr> \<and>
   chunk_size \<lparr>chunk_size = 2, overlap_size = 2, respect_boundaries = True\<rparr>
     < int (length (str_split ''a b c'')) \<and>
   \<not> list_all isspace ''a b c'' \<and>
   chunk_text \<lparr>chunk_size = 2, overlap_size = 2, respect_boundaries = True\<rparr> ''a b c'' = None"
proof -
  let ?c1 = "\<lparr>chunk_size = 4, overlap_size = 1, respect_boundaries = True\<rparr>"
  let ?c2 = "\<lparr>chunk_size = 2, overlap_size = 2, respect_boundaries = True\<rparr>"
  have w: "str_split ''a b c. d e f g h'' = [''a'', ''b'', ''c.'', ''d'', ''e'', ''f'', ''g'', ''h'']"
    by (simp add: chunker_eval)
  have w2: "str_split ''a b c'' = [''a'', ''b'', ''c'']"
    by (simp add: chunker_eval)
  have sp: "\<not> list_all isspace ''a b c''"
    by (simp add: isspace_def whitespace_chars_def)
  have h: "0 \<le> overlap_size ?c1 \<and> overlap_size ?c1 < chunk_size ?c1" by simp
  have g: "chunk_size ?c2 \<le> overlap_size ?c2 \<and> chunk_size ?c2 < int (length (str_split ''a b c''))
             \<and> \<not> list_all isspace ''a b c''"
    using sp by (simp add: w2)
  from chunk_text_terminates[of ?c1 "''a b c. d e f g h''"] h
  have "\<exists>chunks. chunk_text ?c1 ''a b c. d e f g h'' = Some chunks \<and>
          length chunks \<le> length (str_split ''a b c. d e f g h'')
                             div nat (chunk_size ?c1 - overlap_size ?c1) + 1"
    by blast
  then obtain chunks where c: "chunk_text ?c1 ''a b c. d e f g h'' = Some chunks"
    and l: "length chunks \<le> length (str_split ''a b c. d e f g h'')
                             div nat (chunk_size ?c1 - overlap_size ?c1) + 1"
    by blast
  from l have "length chunks \<le> 3" by (simp add: w)
  with c have t: "chunk_text ?c1 ''a b c. d e f g h'' \<noteq> None \<and>
      length (the (chunk_text ?c1 ''a b c. d e f g h'')) \<le> 3"
    by simp
  from chunk_text_terminates[of ?c2 "''a b c''"] g
  have d: "chunk_text ?c2 ''a b c'' = None" by blast
  show ?thesis using h t g d by blast
qed

section \<open>Boundary trimming\<close>

lemma split_acc_no_space:
  "\<forall>c \<in> set cur. \<not> isspace c \<Longrightarrow> w \<in> set (split_acc cur s) \<Longrightarrow> c \<in> set w \<Longrightarrow> \<not> isspace c"
proof (induction s arbitrary: cur)
  case Nil
  then show ?case by (auto split: if_splits)
next
  case (Cons a s)
  show ?case
  proof (cases "isspace a")
    case True
    then have "w = cur \<or> w \<in> set (split_acc [] s)"
      using Cons.prems(2) by (auto split: if_splits)
    then show ?thesis
    proof
      assume "w = cur"
      then show ?thesis using Cons.prems by simp
    next
      assume "w \<in> set (split_acc [] s)"
      then show ?thesis using Cons.IH[of "[]"] Cons.prems(3) by simp
    qed
  next
    case False
    then have "w \<in> set (split_acc (cur @ [a]) s)" using Cons.prems(2) by simp
    moreover have "\<forall>c \<in> set (cur @ [a]). \<not> isspace c" using False Cons.prems(1) by simp
    ultimately show ?thesis using Cons.IH[of "cur @ [a]"] Cons.prems(3) by blast
  qed
qed

lemma str_split_no_space: "w \<in> set (str_split s) \<Longrightarrow> c \<in> set w \<Longrightarrow> \<not> isspace c"
  unfolding str_split_def using split_acc_no_space[of "[]" w s c] by simp

lemma set_str_join: "set (str_join sep ws) \<subseteq> set sep \<union> \<Union> (set ` set ws)"
  by (induction sep ws rule: str_join.induct) auto

lemma set_py_slice: "set (py_slice xs i j) \<subseteq> set xs"
  unfolding py_slice_def Let_def
  using set_take_subset set_drop_subset by fast

lemma search_paragraph_None: "CHR 0x0A \<notin> set t \<Longrightarrow> search_paragraph t = None"
  by (induction t rule: search_paragraph.induct) auto

lemma window_text_no_newline:
  "CHR 0x0A \<notin> set (str_join '' '' (window_words self (str_split text) start))"
proof
  assume "CHR 0x0A \<in> set (str_join '' '' (window_words self (str_split text) start))"
  then have "CHR 0x0A \<in> set '' '' \<union> \<Union> (set ` set (window_words self (str_split text) start))"
    using set_str_join by blast
  then obtain w where w: "w \<in> set (window_words self (str_split text) start)"
    and c: "CHR 0x0A \<in> set w"
    by auto
  from w have "w \<in> set (str_split text)"
    unfolding window_words_def by (rule subsetD[OF set_py_slice])
  then have "\<not> isspace (CHR 0x0A)" using c by (rule str_split_no_space)
  then show False by (simp add: isspace_def whitespace_chars_def)
qed

lemma length_str_strip: "length (str_strip s) \<le> length s"
proof -
  have "length (dropWhile isspace (rev (dropWhile isspace s))) \<le> length (rev (dropWhile isspace s))"
    by (rule length_dropWhile_le)
  also have "\<dots> \<le> length s" by (simp add: length_dropWhile_le)
  finally show ?thesis by (simp add: str_strip_def)
qed

lemma length_adjust_to_boundary: "length (adjust_to_boundary t) \<le> length t"
proof -
  have "length (str_strip (take n t)) \<le> length t" for n
    using length_str_strip[of "take n t"] by simp
  then show ?thesis
    by (auto simp: adjust_to_boundary_def split: option.splits)
qed

lemma adjust_to_boundary_window:
  "CHR 0x0A \<notin> set t \<Longrightarrow>
     adjust_to_boundary t =
       (case find (\<lambda>m. real (snd m) > real (length t) * 0.5) (rev (finditer_sentence 0 t)) of
          Some m \<Rightarrow> str_strip (take (snd m) t)
        | None \<Rightarrow> t)"
  by (simp add: adjust_to_boundary_def search_paragraph_None)

text \<open>
  Claim C6. Trimming never lengthens a chunk. The text of a window is the window's
  words joined by single spaces, so it holds no paragraph break and the paragraph
  test of \<open>_adjust_to_boundary\<close> never succeeds on it: on the text \<open>a b c\n\nd e f g h\<close>
  with windows of 4 words, the first window has the paragraph break in its back half
  and is emitted whole.
\<close>

theorem adjust_to_boundary_paragraph_lost:
  "length (adjust_to_boundary t) \<le> length t \<and>
   search_paragraph (str_join '' '' (window_words self (str_split text) start)) = None \<and>
   chunk_text \<lparr>chunk_size = 4, overlap_size = 1, respect_boundaries = True\<rparr>
     (''a b c'' @ [CHR 0x0A, CHR 0x0A] @ ''d e f g h'') = Some [''a b c d'', ''d e f g'', ''g h'']"
proof -
  have "chunk_text \<lparr>chunk_size = 4, overlap_size = 1, respect_boundaries = True\<rparr>
     (''a b c'' @ [CHR 0x0A, CHR 0x0A] @ ''d e f g h'') = Some [''a b c d'', ''d e f g'', ''g h'']"
    by code_simp
  then show ?thesis
    using length_adjust_to_boundary window_text_no_newline search_paragraph_None by blast
qed

section \<open>Request validation\<close>

lemma check_selected_text_rejects:
  assumes "length (str_split s) < 20 \<or> length (str_split s) > 2000"
  shows "check_selected_text (Given (Some s)) mode = Inl ValidationError"
proof (cases "s = []")
  case True
  then show ?thesis by (simp add: check_selected_text_def)
next
  case False
  then show ?thesis
    using assms
    by (auto simp: check_selected_text_def validate_selected_text_def truthy_def Let_def)
qed

lemma QueryRequest_init_selected_text:
  assumes "check_selected_text (in_selected_text raw)
             (case check_query_mode (in_query_mode raw) of Inr m \<Rightarrow> Some m | Inl e \<Rightarrow> None)
           = Inl ValidationError"
  shows "QueryRequest_init raw = Inl ValidationError"
  using assms by (simp add: QueryRequest_init_def Let_def split: sum.splits)

text \<open>
  Claim C8. A query in selected-text mode whose selected passage has fewer than 20 or
  more than 2000 words is rejected with a validation error when the request is
  constructed; the route returns that error whatever the embedding, vector-search and
  completion capabilities are, so none of them is called.
\<close>

theorem selected_text_word_count_rejected:
  assumes "in_query_mode raw = Given ''selected-text''"
    and "in_selected_text raw = Given (Some s)"
    and "length (str_split s) < 20 \<or> length (str_split s) > 2000"
  shows "QueryRequest_init raw = Inl ValidationError \<and>
         (\<forall>env. post_query env raw = Inl ValidationError)"
proof -
  have "QueryRequest_init raw = Inl ValidationError"
    using assms(2) check_selected_text_rejects[OF assms(3)]
    by (intro QueryRequest_init_selected_text) simp
  then show ?thesis by (simp add: post_query_def)
qed

theorem selected_text_word_count_rejected_witness:
  "in_query_mode \<lparr>in_query_text = Given ''What is it?'', in_query_mode = Given ''selected-text'',
                   in_session_id = Omitted, in_selected_text = Given (Some ''a robot of ten words is too short to be used''),
                   in_max_results = Omitted\<rparr> = Given ''selected-text'' \<and>
   length (str_split ''a robot of ten words is too short to be used'') < 20 \<and>
   QueryRequest_init \<lparr>in_query_text = Given ''What is it?'', in_query_mode = Given ''selected-text'',
                   in_session_id = Omitted, in_selected_text = Given (Some ''a robot of ten words is too short to be used''),
                   in_max_results = Omitted\<rparr> = Inl ValidationError \<and>
   post_query \<lparr>generate_embedding = (\<lambda>t. Inr [1]), vector_search = (\<lambda>v l t. Inr []),
               chat_completion = (\<lambda>s u m. Inr (Some ''ok'')), format_score = (\<lambda>x. ''1.00''),
               float_round = round_binary64\<rparr>
     \<lparr>in_query_text = Given ''What is it?'', in_query_mode = Given ''selected-text'',
                   in_session_id = Omitted, in_selected_text = Given (Some ''a robot of ten words is too short to be used''),
                   in_max_results = Omitted\<rparr> = Inl ValidationError"
proof -
  let ?raw = "\<lparr>in_query_text = Given ''What is it?'', in_query_mode = Given ''selected-text'',
                   in_session_id = Omitted, in_selected_text = Given (Some ''a robot of ten words is too short to be used''),
                   in_max_results = Omitted\<rparr>"
  have h1: "in_query_mode ?raw = Given ''selected-text''" by simp
  have h2: "in_selected_text ?raw = Given (Some ''a robot of ten words is too short to be used'')"
    by simp
  have w: "length (str_split ''a robot of ten words is too short to be used'') < 20"
    by code_simp
  then have h3: "length (str_split ''a robot of ten words is too short to be used'') < 20 \<or>
     length (str_split ''a robot of ten words is too short to be used'') > 2000" by simp
  from selected_text_word_count_rejected[OF h1 h2 h3] h1 w show ?thesis by blast
qed

section \<open>The confidence heuristic\<close>

lemma estimate_confidence_bounds:
  "0 \<le> estimate_confidence response context \<and> estimate_confidence response context \<le> 1"
  by (simp add: estimate_confidence_def Let_def)


lemmas str_eval = str_lower_def char_lower_def upper_chars_def lower_chars_def
  isspace_def whitespace_chars_def str_split_def


section \<open>The selection handler\<close>

lemma py_take_nonneg: "0 \<le> n \<Longrightarrow> py_take xs n = take (nat n) xs"
proof -
  assume "0 \<le> n"
  then have "slice_index (length xs) n = min (nat n) (length xs)"
    by (simp add: slice_index_def min_def)
  then show ?thesis by (simp add: py_take_def min_def)
qed

lemma py_take_length: "0 \<le> n \<Longrightarrow> length (py_take xs n) \<le> nat n"
  by (simp add: py_take_nonneg)

lemma set_py_take: "set (py_take xs n) \<subseteq> set xs"
  by (simp add: py_take_def set_take_subset)

lemma py_take_nonempty: "xs \<noteq> [] \<Longrightarrow> 1 \<le> n \<Longrightarrow> py_take xs n \<noteq> []"
  by (cases xs) (simp_all add: py_take_nonneg)

lemma sort_reverse_sorted:
  "sorted_wrt (\<lambda>a b. k a \<ge> k b) (sort_reverse k xs)"
proof -
  have "sorted (map (\<lambda>x. - k x) (sort_key (\<lambda>x. - k x) xs))" by (rule sorted_sort_key)
  then show ?thesis by (simp add: sort_reverse_def sorted_map)
qed

lemma sort_reverse_stable:
  "filter (\<lambda>x. k x = v) (sort_reverse k xs) = filter (\<lambda>x. k x = v) xs"
proof -
  have "filter (\<lambda>x. - k x = - v) (sort_key (\<lambda>x. - k x) xs) = filter (\<lambda>x. - k x = - v) xs"
    by (rule sort_key_stable)
  then show ?thesis by (simp add: sort_reverse_def)
qed

lemma sort_reverse_length: "length (sort_reverse k xs) = length xs"
  by (simp add: sort_reverse_def)

lemma sort_reverse_set: "set (sort_reverse k xs) = set xs"
  by (simp add: sort_reverse_def)

lemma sort_reverse_Nil_iff: "sort_reverse k xs = [] \<longleftrightarrow> xs = []"
  using sort_reverse_length[of k xs] by (metis length_0_conv)

lemma calculate_overlap_score_value:
  "calculate_overlap_score rnd passage (set kws) =
     (if set kws = {} then 0
      else rnd (jaccard (set (str_split (str_lower passage))) (set kws)))"
proof (cases "set kws = {}")
  case True
  then show ?thesis by (simp add: calculate_overlap_score_def)
next
  case False
  let ?W = "set (str_split (str_lower passage))"
  have ne: "?W \<union> set kws \<noteq> {}" using False by simp
  then have "card (?W \<union> set kws) \<noteq> 0" by simp
  then show ?thesis
    using False ne by (simp add: calculate_overlap_score_def Let_def jaccard_def)
qed

lemma filter_chunks_by_selection_unfold:
  "selected \<noteq> [] \<Longrightarrow>
   filter_chunks_by_selection rnd self chunks selected limit =
     (let ranked = sort_reverse get_combined_score
                     (map (score_chunk rnd (extract_keywords selected)) chunks);
          kept = filter (\<lambda>c. similarity_threshold self \<le> get_text_overlap c) ranked
      in py_take (if kept = [] then py_take ranked limit else kept) limit)"
proof (cases "chunks = []")
  case True
  assume "selected \<noteq> []"
  then show ?thesis using True
    by (simp add: filter_chunks_by_selection_def sort_reverse_def py_take_def)
next
  case False
  assume "selected \<noteq> []"
  moreover have "sort_reverse get_combined_score
                     (map (score_chunk rnd (extract_keywords selected)) chunks) \<noteq> []"
    using False by (simp add: sort_reverse_Nil_iff)
  ultimately show ?thesis using False
    by (simp add: filter_chunks_by_selection_def Let_def)
qed

text \<open>
  Claim C3. For a non-empty candidate list and \<open>max_results \<ge> 1\<close> the selection handler
  returns a non-empty list; when the overlap filter is run and keeps no candidate, the
  result is the first \<open>max_results\<close> candidates of the list sorted by combined score.
\<close>

theorem filter_chunks_by_selection_nonempty:
  assumes "chunks \<noteq> []" and "1 \<le> limit"
  shows "filter_chunks_by_selection rnd self chunks selected limit \<noteq> [] \<and>
         (selected \<noteq> [] \<and>
          filter (\<lambda>c. similarity_threshold self \<le> get_text_overlap c)
            (sort_reverse get_combined_score
               (map (score_chunk rnd (extract_keywords selected)) chunks)) = []
          \<longrightarrow> filter_chunks_by_selection rnd self chunks selected limit =
                take (nat limit)
                  (sort_reverse get_combined_score
                     (map (score_chunk rnd (extract_keywords selected)) chunks)))"
proof (cases "selected = []")
  case True
  then show ?thesis
    using assms by (simp add: filter_chunks_by_selection_def py_take_nonempty)
next
  case False
  let ?ranked = "sort_reverse get_combined_score
                   (map (score_chunk rnd (extract_keywords selected)) chunks)"
  let ?kept = "filter (\<lambda>c. similarity_threshold self \<le> get_text_overlap c) ?ranked"
  have r: "?ranked \<noteq> []" using assms(1) by (simp add: sort_reverse_Nil_iff)
  have n: "0 \<le> limit" using assms(2) by simp
  have u: "filter_chunks_by_selection rnd self chunks selected limit =
             py_take (if ?kept = [] then py_take ?ranked limit else ?kept) limit"
    using filter_chunks_by_selection_unfold[OF False] by (simp add: Let_def)
  show ?thesis
  proof (cases "?kept = []")
    case True
    then have "filter_chunks_by_selection rnd self chunks selected limit = take (nat limit) ?ranked"
      using u n by (simp add: py_take_nonneg)
    moreover have "take (nat limit) ?ranked \<noteq> []" using r assms(2) by (cases ?ranked) simp_all
    ultimately show ?thesis by simp
  next
    case k: False
    then have "filter_chunks_by_selection rnd self chunks selected limit = py_take ?kept limit"
      using u by simp
    then show ?thesis using k assms(2) by (simp add: py_take_nonempty)
  qed
qed

theorem filter_chunks_by_selection_nonempty_witness:
  "[chunk_balance, chunk_humanoid] \<noteq> [] \<and> (1::int) \<le> 1 \<and>
   filter_chunks_by_selection round_binary64 (default_selection_handler round_binary64) [chunk_balance, chunk_humanoid]
     ''quantum entanglement physics'' 1 \<noteq> [] \<and>
   map point_id (filter_chunks_by_selection round_binary64 (default_selection_handler round_binary64)
                   [chunk_humanoid, chunk_balance] ''quantum entanglement physics'' 1) = [1]"
proof -
  have h1: "[chunk_balance, chunk_humanoid] \<noteq> []" by simp
  have h2: "(1::int) \<le> 1" by simp
  have e: "map point_id (filter_chunks_by_selection round_binary64 (default_selection_handler round_binary64)
             [chunk_humanoid, chunk_balance] ''quantum entanglement physics'' 1) = [1]"
    by code_simp
  have "filter_chunks_by_selection round_binary64 (default_selection_handler round_binary64) [chunk_balance, chunk_humanoid]
     ''quantum entanglement physics'' 1 \<noteq> []"
    using filter_chunks_by_selection_nonempty[OF h1 h2, where rnd = round_binary64
            and self = "default_selection_handler round_binary64"
         and selected = "''quantum entanglement physics''"]
    by (rule conjunct1)
  then show ?thesis using h1 h2 e by blast
qed

lemma score_chunk_scores:
  "get_text_overlap (score_chunk rnd (set kws) c) =
     (if set kws = {} then 0
      else rnd (jaccard (set (str_split (str_lower (dict_get (payload c) ''chunk_text'' []))))
                  (set kws))) \<and>
   get_combined_score (score_chunk rnd (set kws) c) =
     rnd (rnd (score c * rnd 0.6) + rnd (get_text_overlap (score_chunk rnd (set kws) c) * rnd 0.4))"
  by (simp add: score_chunk_def Let_def get_text_overlap_def get_combined_score_def
        calculate_overlap_score_value)

lemma jaccard_no_keywords: "jaccard A {} = 0"
  by (simp add: jaccard_def)

lemma score_chunk_overlap_rounded:
  assumes "rnd 0 = 0"
  shows "get_text_overlap (score_chunk rnd (set kws) c) =
           rnd (jaccard (set (str_split (str_lower (dict_get (payload c) ''chunk_text'' []))))
                  (set kws))"
proof (cases "set kws = {}")
  case True
  then show ?thesis using assms score_chunk_scores[of rnd kws c]
    by (simp add: jaccard_no_keywords)
next
  case False
  then show ?thesis using score_chunk_scores[of rnd kws c] by simp
qed

text \<open>
  Claim C2, amended. For an empty selected text the handler returns the first
  \<open>max_results\<close> candidates as they were given. For every candidate list and every
  non-empty selected text, and whatever the rounding of the float arithmetic is: each
  candidate gets the overlap score that is the rounded Jaccard similarity of its
  lower-case token set and the selection's keyword set (0 when the keyword set is empty),
  and the combined score \<open>vector_score * 0.6 + overlap_score * 0.4\<close> computed with
  rounded literals, products and sum; the candidates are sorted descending by that
  computed combined score, candidates of equal computed score keeping their order; the
  result is the candidates with overlap score at least the threshold, or, when there is
  none, the sorted list, cut to \<open>max_results\<close> by \<open>[:max_results]\<close>; unless that
  fallback is taken, every returned item has overlap score at least the threshold.
\<close>

theorem filter_chunks_by_selection_ranking:
  "(selected = [] \<longrightarrow>
      filter_chunks_by_selection rnd self chunks selected limit = py_take chunks limit) \<and>
   (selected \<noteq> [] \<longrightarrow>
     (let kws = extract_keywords selected;
          scored = map (score_chunk rnd kws) chunks;
          ranked = sort_reverse get_combined_score scored;
          kept = filter (\<lambda>c. similarity_threshold self \<le> get_text_overlap c) ranked;
          result = filter_chunks_by_selection rnd self chunks selected limit
      in (\<forall>c \<in> set chunks.
            get_text_overlap (score_chunk rnd kws c) =
              (if kws = {} then 0
               else rnd (jaccard
                      (set (str_split (str_lower (dict_get (payload c) ''chunk_text'' [])))) kws)) \<and>
            (rnd 0 = 0 \<longrightarrow>
               get_text_overlap (score_chunk rnd kws c) =
                 rnd (jaccard
                      (set (str_split (str_lower (dict_get (payload c) ''chunk_text'' [])))) kws)) \<and>
            get_combined_score (score_chunk rnd kws c) =
              rnd (rnd (score c * rnd 0.6)
                   + rnd (get_text_overlap (score_chunk rnd kws c) * rnd 0.4))) \<and>
         sorted_wrt (\<lambda>a b. get_combined_score a \<ge> get_combined_score b) ranked \<and>
         (\<forall>v. filter (\<lambda>c. get_combined_score c = v) ranked =
              filter (\<lambda>c. get_combined_score c = v) scored) \<and>
         result = py_take (if kept = [] then py_take ranked limit else kept) limit \<and>
         (kept \<noteq> [] \<longrightarrow> (\<forall>c \<in> set result. similarity_threshold self \<le> get_text_overlap c)) \<and>
         (0 \<le> limit \<longrightarrow> length result \<le> nat limit)))"
proof (intro conjI impI)
  assume "selected = []"
  then show "filter_chunks_by_selection rnd self chunks selected limit = py_take chunks limit"
    by (simp add: filter_chunks_by_selection_def)
next
  assume ne: "selected \<noteq> []"
  define kws where "kws = extract_keywords selected"
  define ranked where "ranked = sort_reverse get_combined_score (map (score_chunk rnd kws) chunks)"
  define kept where "kept = filter (\<lambda>c. similarity_threshold self \<le> get_text_overlap c) ranked"
  define result where "result = filter_chunks_by_selection rnd self chunks selected limit"
  have 1: "get_text_overlap (score_chunk rnd kws c) =
              (if kws = {} then 0
               else rnd (jaccard
                      (set (str_split (str_lower (dict_get (payload c) ''chunk_text'' [])))) kws)) \<and>
           (rnd 0 = 0 \<longrightarrow>
               get_text_overlap (score_chunk rnd kws c) =
                 rnd (jaccard
                      (set (str_split (str_lower (dict_get (payload c) ''chunk_text'' [])))) kws)) \<and>
           get_combined_score (score_chunk rnd kws c) =
              rnd (rnd (score c * rnd 0.6)
                   + rnd (get_text_overlap (score_chunk rnd kws c) * rnd 0.4))" for c
    unfolding kws_def extract_keywords_def
    using score_chunk_scores score_chunk_overlap_rounded by (intro conjI impI) blast+
  have 2: "sorted_wrt (\<lambda>a b. get_combined_score a \<ge> get_combined_score b) ranked"
    unfolding ranked_def by (rule sort_reverse_sorted)
  have 3: "filter (\<lambda>c. get_combined_score c = v) ranked =
           filter (\<lambda>c. get_combined_score c = v) (map (score_chunk rnd kws) chunks)" for v
    unfolding ranked_def by (rule sort_reverse_stable)
  have 4: "result = py_take (if kept = [] then py_take ranked limit else kept) limit"
    unfolding result_def kept_def ranked_def kws_def
    by (rule filter_chunks_by_selection_unfold[OF ne, unfolded Let_def])
  have 5: "\<forall>c \<in> set result. similarity_threshold self \<le> get_text_overlap c" if "kept \<noteq> []"
  proof
    fix c assume "c \<in> set result"
    then have "c \<in> set (py_take kept limit)" using 4 that by simp
    then have "c \<in> set kept" by (rule subsetD[OF set_py_take])
    then show "similarity_threshold self \<le> get_text_overlap c" by (simp add: kept_def)
  qed
  have 6: "length result \<le> nat limit" if "0 \<le> limit"
    unfolding 4 using that by (rule py_take_length)
  have q1: "\<forall>c \<in> set chunks.
            get_text_overlap (score_chunk rnd kws c) =
              (if kws = {} then 0
               else rnd (jaccard
                      (set (str_split (str_lower (dict_get (payload c) ''chunk_text'' [])))) kws)) \<and>
            (rnd 0 = 0 \<longrightarrow>
               get_text_overlap (score_chunk rnd kws c) =
                 rnd (jaccard
                      (set (str_split (str_lower (dict_get (payload c) ''chunk_text'' [])))) kws)) \<and>
            get_combined_score (score_chunk rnd kws c) =
              rnd (rnd (score c * rnd 0.6)
                   + rnd (get_text_overlap (score_chunk rnd kws c) * rnd 0.4))"
    by (intro ballI) (rule 1)
  have q3: "\<forall>v. filter (\<lambda>c. get_combined_score c = v) ranked =
           filter (\<lambda>c. get_combined_score c = v) (map (score_chunk rnd kws) chunks)"
    by (intro allI) (rule 3)
  have q5: "kept \<noteq> [] \<longrightarrow> (\<forall>c \<in> set result. similarity_threshold self \<le> get_text_overlap c)"
    by (intro impI) (rule 5)
  have q6: "0 \<le> limit \<longrightarrow> length result \<le> nat limit"
    by (intro impI) (rule 6)
  show "let kws = extract_keywords selected;
          scored = map (score_chunk rnd kws) chunks;
          ranked = sort_reverse get_combined_score scored;
          kept = filter (\<lambda>c. similarity_threshold self \<le> get_text_overlap c) ranked;
          result = filter_chunks_by_selection rnd self chunks selected limit
      in (\<forall>c \<in> set chunks.
            get_text_overlap (score_chunk rnd kws c) =
              (if kws = {} then 0
               else rnd (jaccard
                      (set (str_split (str_lower (dict_get (payload c) ''chunk_text'' [])))) kws)) \<and>
            (rnd 0 = 0 \<longrightarrow>
               get_text_overlap (score_chunk rnd kws c) =
                 rnd (jaccard
                      (set (str_split (str_lower (dict_get (payload c) ''chunk_text'' [])))) kws)) \<and>
            get_combined_score (score_chunk rnd kws c) =
              rnd (rnd (score c * rnd 0.6)
                   + rnd (get_text_overlap (score_chunk rnd kws c) * rnd 0.4))) \<and>
         sorted_wrt (\<lambda>a b. get_combined_score a \<ge> get_combined_score b) ranked \<and>
         (\<forall>v. filter (\<lambda>c. get_combined_score c = v) ranked =
              filter (\<lambda>c. get_combined_score c = v) scored) \<and>
         result = py_take (if kept = [] then py_take ranked limit else kept) limit \<and>
         (kept \<noteq> [] \<longrightarrow> (\<forall>c \<in> set result. similarity_threshold self \<le> get_text_overlap c)) \<and>
         (0 \<le> limit \<longrightarrow> length result \<le> nat limit)"
    unfolding Let_def kws_def[symmetric] ranked_def[symmetric] kept_def[symmetric]
      result_def[symmetric]
    by (intro conjI q1 2 q3 4 q5 q6)
qed

theorem filter_chunks_by_selection_ranking_witness:
  "''humanoid robots walking upright'' \<noteq> [] \<and>
   map point_id (filter_chunks_by_selection round_binary64
                   (default_selection_handler round_binary64)
                   [chunk_short, chunk_long] ''humanoid robots walking upright'' 2) = [2, 1] \<and>
   map get_combined_score (filter_chunks_by_selection round_binary64
                   (default_selection_handler round_binary64)
                   [chunk_short, chunk_long] ''humanoid robots walking upright'' 2)
     = [6124895493223875 / 9007199254740992, 3062447746611937 / 4503599627370496] \<and>
   map point_id (filter_chunks_by_selection round_binary64
                   (default_selection_handler round_binary64)
                   [chunk_short, chunk_long] ''humanoid robots walking upright'' 1) = [2] \<and>
   filter_chunks_by_selection round_binary64 (default_selection_handler round_binary64)
     [chunk_short, chunk_long] [] 2 = py_take [chunk_short, chunk_long] 2 \<and>
   length (filter_chunks_by_selection round_binary64
                   (default_selection_handler round_binary64)
                   [chunk_short, chunk_long] ''humanoid robots walking upright'' 2) \<le> nat 2"
proof -
  let ?h = "default_selection_handler round_binary64"
  let ?r2 = "filter_chunks_by_selection round_binary64 ?h
               [chunk_short, chunk_long] ''humanoid robots walking upright'' 2"
  have h: "''humanoid robots walking upright'' \<noteq> []" by simp
  have E: "map (\<lambda>c. (point_id c, get_combined_score c)) ?r2
             = [(2, 6124895493223875 / 9007199254740992),
                (1, 3062447746611937 / 4503599627370496)]"
    by code_simp
  have "map point_id ?r2 = map fst (map (\<lambda>c. (point_id c, get_combined_score c)) ?r2)"
    by (simp add: comp_def)
  then have a: "map point_id ?r2 = [2, 1]" unfolding E by simp
  have "map get_combined_score ?r2
          = map snd (map (\<lambda>c. (point_id c, get_combined_score c)) ?r2)"
    by (simp add: comp_def)
  then have c: "map get_combined_score ?r2
     = [6124895493223875 / 9007199254740992, 3062447746611937 / 4503599627370496]"
    unfolding E by simp
  have a1: "map point_id (filter_chunks_by_selection round_binary64 ?h
                   [chunk_short, chunk_long] ''humanoid robots walking upright'' 1) = [2]"
    by code_simp
  note T = filter_chunks_by_selection_ranking[where rnd = round_binary64 and self = ?h
            and chunks = "[chunk_short, chunk_long]" and limit = 2]
  have e: "filter_chunks_by_selection round_binary64 ?h [chunk_short, chunk_long] [] 2
             = py_take [chunk_short, chunk_long] 2"
    using T[where selected = "[]", THEN conjunct1] by (rule mp) (rule refl)
  note U = T[where selected = "''humanoid robots walking upright''", THEN conjunct2,
             THEN mp, OF h, unfolded Let_def]
  have z: "(0::int) \<le> 2" by simp
  have l: "length ?r2 \<le> nat 2"
    using U[THEN conjunct2, THEN conjunct2, THEN conjunct2, THEN conjunct2, THEN conjunct2] z
    by (rule mp)
  show ?thesis using h a c a1 e l by (intro conjI)
qed

text \<open>
  Claim C2 as stated, for every selected text, fails on the empty selection: the
  candidates come back as they were given, without scores and not in the order of the
  combined score.
\<close>

theorem filter_chunks_by_selection_empty_selection_counterexample:
  "filter_chunks_by_selection round_binary64 (default_selection_handler round_binary64)
     [chunk_humanoid, chunk_balance] [] 2
     = [chunk_humanoid, chunk_balance] \<and>
   map combined_score
     (filter_chunks_by_selection round_binary64 (default_selection_handler round_binary64)
        [chunk_humanoid, chunk_balance] [] 2)
     = [None, None] \<and>
   0.6 * score chunk_humanoid
     + 0.4 * jaccard (set (str_split (str_lower (dict_get (payload chunk_humanoid) ''chunk_text'' []))))
               (extract_keywords [])
   < 0.6 * score chunk_balance
     + 0.4 * jaccard (set (str_split (str_lower (dict_get (payload chunk_balance) ''chunk_text'' []))))
               (extract_keywords [])"
proof -
  have a: "filter_chunks_by_selection round_binary64 (default_selection_handler round_binary64)
     [chunk_humanoid, chunk_balance] [] 2
     = [chunk_humanoid, chunk_balance]"
    by (simp add: filter_chunks_by_selection_def py_take_nonneg)
  have b: "combined_score chunk_humanoid = None \<and> combined_score chunk_balance = None"
    by (simp add: chunk_humanoid_def chunk_balance_def)
  have k: "extract_keywords [] = {}" by (simp add: extract_keywords_def str_lower_def str_split_def)
  have c: "0.6 * score chunk_humanoid + 0.4 * jaccard A (extract_keywords [])
         < 0.6 * score chunk_balance + 0.4 * jaccard B (extract_keywords [])" for A B :: "string set"
    by (simp add: k jaccard_def chunk_humanoid_def chunk_balance_def)
  show ?thesis using a b c by simp
qed

section \<open>Selected-text retrieval\<close>

lemma average_embeddings_nth:
  assumes "length qe = length se" "i < length qe"
  shows "average_embeddings qe se ! i = (qe ! i + se ! i) / 2"
  using assms by (simp add: average_embeddings_def)

lemma average_embeddings_length:
  "length qe = length se \<Longrightarrow> length (average_embeddings qe se) = length qe"
  by (simp add: average_embeddings_def)

lemma retrieve_step_selected:
  "selection_of request = Some selected \<Longrightarrow>
     retrieve_step env request =
       (case retrieve_for_selected_text env (query_text request) selected
               (max_results request * 2) of
          Inl e \<Rightarrow> Inl e
        | Inr initial \<Rightarrow>
            Inr (filter_chunks_by_selection (float_round env)
                      (default_selection_handler (float_round env)) initial selected
                   (max_results request)))"
  by (simp add: retrieve_step_def)

text \<open>
  Claim C1, amended. \<open>retrieve_for_selected_text\<close> embeds the selected passage and the
  query text independently, averages the two embeddings element by element (for vectors
  of equal length), searches the index with similarity floor 0.6 and a limit equal to
  its own \<open>max_results\<close> argument, keeps the candidates whose chunk text shares more than
  3 words (lower-cased, split at whitespace) with the passage, and cuts the result to
  that same argument. In selected-text mode \<open>process_query\<close> passes twice the request's
  \<open>max_results\<close> as that argument.
\<close>

theorem retrieve_for_selected_text_result:
  assumes "generate_embedding env selected = Inr selected_embedding"
    and "generate_embedding env query = Inr query_embedding"
    and "vector_search env (average_embeddings query_embedding selected_embedding) limit 0.6
           = Inr results"
  shows "retrieve_for_selected_text env query selected limit =
           Inr (py_take
                  (filter (\<lambda>r. 3 < shared_words selected (dict_get (payload r) ''chunk_text'' []))
                     results)
                  limit) \<and>
         (0 \<le> limit \<longrightarrow>
            retrieve_for_selected_text env query selected limit =
              Inr (take (nat limit)
                     (filter (\<lambda>r. 3 < shared_words selected (dict_get (payload r) ''chunk_text'' []))
                        results))) \<and>
         (length query_embedding = length selected_embedding \<longrightarrow>
            length (average_embeddings query_embedding selected_embedding)
              = length query_embedding \<and>
            (\<forall>i < length query_embedding.
               average_embeddings query_embedding selected_embedding ! i
                 = (query_embedding ! i + selected_embedding ! i) / 2)) \<and>
         (selection_of request = Some selected \<longrightarrow>
            retrieve_step env request =
              (case retrieve_for_selected_text env (query_text request) selected
                      (max_results request * 2) of
                 Inl e \<Rightarrow> Inl e
               | Inr initial \<Rightarrow>
                   Inr (filter_chunks_by_selection (float_round env)
                      (default_selection_handler (float_round env)) initial selected
                          (max_results request))))"
proof (intro conjI impI allI)
  show r: "retrieve_for_selected_text env query selected limit =
           Inr (py_take
                  (filter (\<lambda>r. 3 < shared_words selected (dict_get (payload r) ''chunk_text'' []))
                     results)
                  limit)"
    using assms by (simp add: retrieve_for_selected_text_def)
  show "retrieve_for_selected_text env query selected limit =
          Inr (take (nat limit)
                 (filter (\<lambda>r. 3 < shared_words selected (dict_get (payload r) ''chunk_text'' []))
                    results))"
    if "0 \<le> limit"
    using r that by (simp add: py_take_nonneg)
  show "length (average_embeddings query_embedding selected_embedding) = length query_embedding"
    if "length query_embedding = length selected_embedding"
    using that by (rule average_embeddings_length)
  show "average_embeddings query_embedding selected_embedding ! i
          = (query_embedding ! i + selected_embedding ! i) / 2"
    if "length query_embedding = length selected_embedding" "i < length query_embedding" for i
    using that by (rule average_embeddings_nth)
  show "retrieve_step env request =
          (case retrieve_for_selected_text env (query_text request) selected
                  (max_results request * 2) of
             Inl e \<Rightarrow> Inl e
           | Inr initial \<Rightarrow>
               Inr (filter_chunks_by_selection (float_round env)
                      (default_selection_handler (float_round env)) initial selected
                      (max_results request)))"
    if "selection_of request = Some selected"
    using that by (rule retrieve_step_selected)
qed

lemma example_shared_words:
  "\<not> 3 < shared_words example_selection (dict_get (payload chunk_balance) ''chunk_text'' [])"
  "3 < shared_words example_selection (dict_get (payload chunk_legs) ''chunk_text'' [])"
  "3 < shared_words example_selection (dict_get (payload chunk_two) ''chunk_text'' [])"
  "3 < shared_words example_selection (dict_get (payload chunk_steps) ''chunk_text'' [])"
  by code_simp+

theorem retrieve_for_selected_text_result_witness:
  "generate_embedding example_services example_selection = Inr [1, 0] \<and>
   generate_embedding example_services ''How do they walk?'' = Inr [1, 0] \<and>
   vector_search example_services (average_embeddings [1, 0] [1, 0]) 4 0.6
     = Inr [chunk_balance, chunk_legs, chunk_two, chunk_steps] \<and>
   retrieve_for_selected_text example_services ''How do they walk?'' example_selection 4
     = Inr [chunk_legs, chunk_two, chunk_steps] \<and>
   average_embeddings [1, 0] [1, 0] = [1, 0]"
proof -
  have h1: "generate_embedding example_services example_selection = Inr [1, 0]"
    by (simp add: example_services_def)
  have h2: "generate_embedding example_services ''How do they walk?'' = Inr [1, 0]"
    by (simp add: example_services_def)
  have h3: "vector_search example_services (average_embeddings [1, 0] [1, 0]) 4 0.6
     = Inr [chunk_balance, chunk_legs, chunk_two, chunk_steps]"
    by (simp add: example_services_def py_take_nonneg)
  have "retrieve_for_selected_text example_services ''How do they walk?'' example_selection 4 =
          Inr (take (nat 4)
                 (filter (\<lambda>r. 3 < shared_words example_selection
                                      (dict_get (payload r) ''chunk_text'' []))
                    [chunk_balance, chunk_legs, chunk_two, chunk_steps]))"
    using retrieve_for_selected_text_result[OF h1 h2 h3, THEN conjunct2, THEN conjunct1]
    by simp
  then have "retrieve_for_selected_text example_services ''How do they walk?'' example_selection 4
     = Inr [chunk_legs, chunk_two, chunk_steps]"
    by (simp add: example_shared_words)
  moreover have "average_embeddings [1, 0] [1, 0] = [1, 0]"
    by (simp add: average_embeddings_def)
  ultimately show ?thesis using h1 h2 h3 by blast
qed

text \<open>
  Claim C1 as stated fails on an index whose best point does not share enough words
  with the passage: with \<open>max_results = 1\<close> the code asks the index for one candidate
  and returns nothing, where a search for two candidates would return one result; and
  called by \<open>process_query\<close> for \<open>max_results = 2\<close> the code returns three results, not
  two.
\<close>

theorem retrieve_for_selected_text_limit_counterexample:
  "map_sum id (map point_id)
     (retrieve_for_selected_text example_services ''How do they walk?'' example_selection 1)
     = Inr [] \<and>
   map_sum id (map point_id)
     (selected_text_retrieval_spec example_services ''How do they walk?'' example_selection 1)
     = Inr [3] \<and>
   map_sum id (map point_id)
     (retrieve_for_selected_text example_services ''How do they walk?'' example_selection (2 * 2))
     = Inr [3, 4, 5] \<and>
   map_sum id (map point_id)
     (selected_text_retrieval_spec example_services ''How do they walk?'' example_selection 2)
     = Inr [3, 4]"
  by code_simp

section \<open>The orchestrator\<close>

lemma extract_source_citations_iff:
  "extract_source_citations chunks = Inr citations \<longleftrightarrow>
     (\<forall>c \<in> set chunks. 0 \<le> score c \<and> score c \<le> 1) \<and> citations = map citation_of chunks"
proof (induction chunks arbitrary: citations)
  case Nil
  then show ?case by auto
next
  case (Cons c cs)
  have s: "relevance_score (citation_of c) = score c" by (simp add: citation_of_def)
  show ?case
  proof (cases "0 \<le> score c \<and> score c \<le> 1")
    case True
    then have i: "SourceCitation_init (citation_of c) = Inr (citation_of c)"
      by (simp add: SourceCitation_init_def s)
    show ?thesis
    proof (cases "extract_source_citations cs")
      case (Inl e)
      then have "\<not> (\<forall>c \<in> set cs. 0 \<le> score c \<and> score c \<le> 1)"
        using Cons.IH[of "map citation_of cs"] by auto
      then show ?thesis using Inl i by auto
    next
      case (Inr rest)
      then have "(\<forall>c \<in> set cs. 0 \<le> score c \<and> score c \<le> 1) \<and> rest = map citation_of cs"
        using Cons.IH[of rest] by simp
      then show ?thesis using Inr i True by auto
    qed
  next
    case False
    then have "SourceCitation_init (citation_of c) = Inl ValidationError"
      by (auto simp: SourceCitation_init_def s)
    then show ?thesis using False by auto
  qed
qed

lemma generate_step_confidence:
  "generate_step env request context = Inr (answer, conf) \<Longrightarrow> 0 \<le> conf \<and> conf \<le> 1"
  using estimate_confidence_bounds
  by (auto simp: generate_step_def generate_response_def generate_response_with_selected_text_def
           split: option.splits sum.splits)

lemma filter_chunks_by_selection_origin:
  assumes "c \<in> set (filter_chunks_by_selection rnd self chunks selected limit)"
  shows "\<exists>c0 \<in> set chunks. score c = score c0 \<and> payload c = payload c0 \<and> point_id c = point_id c0"
proof (cases "selected = []")
  case True
  then have "c \<in> set (py_take chunks limit)"
    using assms by (simp add: filter_chunks_by_selection_def)
  then have "c \<in> set chunks" by (rule subsetD[OF set_py_take])
  then show ?thesis by blast
next
  case False
  let ?ranked = "sort_reverse get_combined_score
                   (map (score_chunk rnd (extract_keywords selected)) chunks)"
  let ?kept = "filter (\<lambda>c. similarity_threshold self \<le> get_text_overlap c) ?ranked"
  have "c \<in> set (py_take (if ?kept = [] then py_take ?ranked limit else ?kept) limit)"
    using assms filter_chunks_by_selection_unfold[OF False, where rnd = rnd and self = self
            and chunks = chunks and limit = limit]
    by (simp add: Let_def)
  then have "c \<in> set (if ?kept = [] then py_take ?ranked limit else ?kept)"
    by (rule subsetD[OF set_py_take])
  then have "c \<in> set ?ranked"
  proof (cases "?kept = []")
    case True
    assume "c \<in> set (if ?kept = [] then py_take ?ranked limit else ?kept)"
    then have "c \<in> set (py_take ?ranked limit)" using True by simp
    then show ?thesis by (rule subsetD[OF set_py_take])
  next
    case False
    assume "c \<in> set (if ?kept = [] then py_take ?ranked limit else ?kept)"
    then have "c \<in> set ?kept" using False by simp
    then show ?thesis by simp
  qed
  then have "c \<in> set (map (score_chunk rnd (extract_keywords selected)) chunks)"
    by (simp add: sort_reverse_set)
  then obtain c0 where "c0 \<in> set chunks" "c = score_chunk rnd (extract_keywords selected) c0"
    by auto
  then show ?thesis by (auto simp: score_chunk_def Let_def)
qed

lemma example_selection_nonempty: "example_selection \<noteq> []"
  by (simp add: example_selection_def)

lemma example_retrieval:
  "retrieve_for_selected_text example_services ''How do they walk?'' example_selection 4
     = Inr [chunk_legs, chunk_two, chunk_steps]"
  by (simp add: retrieve_for_selected_text_def example_services_def py_take_nonneg
        example_shared_words)

lemma example_retrieve_step:
  "retrieve_step example_services example_request =
     Inr (filter_chunks_by_selection round_binary64 (default_selection_handler round_binary64)
            [chunk_legs, chunk_two, chunk_steps] example_selection 2)"
proof -
  have "selection_of example_request = Some example_selection"
    by (simp add: selection_of_def example_request_def truthy_def example_selection_nonempty)
  moreover have "query_text example_request = ''How do they walk?''"
    and "max_results example_request = 2"
    by (simp_all add: example_request_def)
  moreover have "float_round example_services = round_binary64"
    by (simp add: example_services_def)
  ultimately show ?thesis
    using example_retrieval by (simp add: retrieve_step_def)
qed

lemma example_generate_step:
  "generate_step example_services example_request context =
     Inr (''According to Source 1, they walk.'',
          estimate_confidence ''According to Source 1, they walk.'' context)"
proof -
  have "selection_of example_request = Some example_selection"
    by (simp add: selection_of_def example_request_def truthy_def example_selection_nonempty)
  then show ?thesis
    by (simp add: generate_step_def generate_response_with_selected_text_def
          example_services_def content_or_empty_def)
qed

text \<open>
  Claim C7. \<open>process_query\<close> returns an answer exactly when retrieval and generation
  succeed and every score of the final result list lies in [0, 1]; the answer then has
  one citation per final result, in the same order, and its \<open>retrieved_chunks\<close> is the
  length of the final result list, which in selected-text mode is the list the
  selection handler returns, not the list of candidates it was given. A citation takes
  \<open>"unknown"\<close>, \<open>"Unknown Chapter"\<close>, \<open>"unknown-module"\<close>, \<open>"general"\<close> and \<open>""\<close> for a
  missing \<open>chapter_id\<close>, \<open>chapter_title\<close>, \<open>module_id\<close>, \<open>section_type\<close> and \<open>file_path\<close>.
\<close>

theorem process_query_citations:
  "(process_query env request = Inr response \<longleftrightarrow>
      (\<exists>chunks answer conf.
          retrieve_step env request = Inr chunks \<and>
          generate_step env request (context_step env request chunks) = Inr (answer, conf) \<and>
          (\<forall>c \<in> set chunks. 0 \<le> score c \<and> score c \<le> 1) \<and>
          response = \<lparr>response_text = answer, source_citations = map citation_of chunks,
                       confidence_score = conf, response_session_id = session_id request,
                       retrieved_chunks = int (length chunks)\<rparr>)) \<and>
   citation_of c =
     \<lparr>chapter_id = (case payload c ''chapter_id'' of Some v \<Rightarrow> v | None \<Rightarrow> ''unknown''),
      chapter_title = (case payload c ''chapter_title'' of Some v \<Rightarrow> v | None \<Rightarrow> ''Unknown Chapter''),
      module_id = (case payload c ''module_id'' of Some v \<Rightarrow> v | None \<Rightarrow> ''unknown-module''),
      section_type = (case payload c ''section_type'' of Some v \<Rightarrow> v | None \<Rightarrow> ''general''),
      file_path = (case payload c ''file_path'' of Some v \<Rightarrow> v | None \<Rightarrow> []),
      cited_chunk_text = (case payload c ''chunk_text'' of Some v \<Rightarrow> v | None \<Rightarrow> []),
      relevance_score = score c\<rparr> \<and>
   (selection_of request = Some selected \<and>
    retrieve_for_selected_text env (query_text request) selected (max_results request * 2)
      = Inr initial
    \<longrightarrow> retrieve_step env request =
          Inr (filter_chunks_by_selection (float_round env)
                      (default_selection_handler (float_round env)) initial selected
                 (max_results request)))"
proof (intro conjI impI)
  show "process_query env request = Inr response \<longleftrightarrow>
      (\<exists>chunks answer conf.
          retrieve_step env request = Inr chunks \<and>
          generate_step env request (context_step env request chunks) = Inr (answer, conf) \<and>
          (\<forall>c \<in> set chunks. 0 \<le> score c \<and> score c \<le> 1) \<and>
          response = \<lparr>response_text = answer, source_citations = map citation_of chunks,
                       confidence_score = conf, response_session_id = session_id request,
                       retrieved_chunks = int (length chunks)\<rparr>)"
    (is "?L \<longleftrightarrow> ?R")
  proof
    assume l: ?L
    then obtain chunks where r: "retrieve_step env request = Inr chunks"
      by (cases "retrieve_step env request") (simp_all add: process_query_def)
    from l r obtain answer conf
      where g: "generate_step env request (context_step env request chunks) = Inr (answer, conf)"
      by (cases "generate_step env request (context_step env request chunks)")
         (auto simp: process_query_def)
    from l r g obtain cits where x: "extract_source_citations chunks = Inr cits"
      by (cases "extract_source_citations chunks") (simp_all add: process_query_def)
    from x have sc: "\<forall>c \<in> set chunks. 0 \<le> score c \<and> score c \<le> 1"
      and cm: "cits = map citation_of chunks"
      using extract_source_citations_iff[of chunks cits] by simp_all
    from l r g x have "QueryResponse_init
            \<lparr>response_text = answer, source_citations = cits,
             confidence_score = conf, response_session_id = session_id request,
             retrieved_chunks = int (length chunks)\<rparr> = Inr response"
      by (simp add: process_query_def)
    then have "response = \<lparr>response_text = answer, source_citations = cits,
             confidence_score = conf, response_session_id = session_id request,
             retrieved_chunks = int (length chunks)\<rparr>"
      by (simp add: QueryResponse_init_def split: if_splits)
    with r g sc cm show ?R by blast
  next
    assume ?R
    then obtain chunks answer conf where r: "retrieve_step env request = Inr chunks"
      and g: "generate_step env request (context_step env request chunks) = Inr (answer, conf)"
      and sc: "\<forall>c \<in> set chunks. 0 \<le> score c \<and> score c \<le> 1"
      and resp: "response = \<lparr>response_text = answer, source_citations = map citation_of chunks,
                       confidence_score = conf, response_session_id = session_id request,
                       retrieved_chunks = int (length chunks)\<rparr>"
      by blast
    have x: "extract_source_citations chunks = Inr (map citation_of chunks)"
      using sc extract_source_citations_iff[of chunks "map citation_of chunks"] by simp
    have cf: "0 \<le> conf \<and> conf \<le> 1" using g by (rule generate_step_confidence)
    show ?L
      using r g x cf resp by (simp add: process_query_def QueryResponse_init_def)
  qed
next
  show "citation_of c =
     \<lparr>chapter_id = (case payload c ''chapter_id'' of Some v \<Rightarrow> v | None \<Rightarrow> ''unknown''),
      chapter_title = (case payload c ''chapter_title'' of Some v \<Rightarrow> v | None \<Rightarrow> ''Unknown Chapter''),
      module_id = (case payload c ''module_id'' of Some v \<Rightarrow> v | None \<Rightarrow> ''unknown-module''),
      section_type = (case payload c ''section_type'' of Some v \<Rightarrow> v | None \<Rightarrow> ''general''),
      file_path = (case payload c ''file_path'' of Some v \<Rightarrow> v | None \<Rightarrow> []),
      cited_chunk_text = (case payload c ''chunk_text'' of Some v \<Rightarrow> v | None \<Rightarrow> []),
      relevance_score = score c\<rparr>"
    by (simp add: citation_of_def dict_get_def)
next
  assume "selection_of request = Some selected \<and>
    retrieve_for_selected_text env (query_text request) selected (max_results request * 2)
      = Inr initial"
  then show "retrieve_step env request =
          Inr (filter_chunks_by_selection (float_round env)
                      (default_selection_handler (float_round env)) initial selected
                 (max_results request))"
    by (simp add: retrieve_step_def)
qed


theorem process_query_citations_witness:
  "process_query example_services example_request =
     Inr \<lparr>response_text = ''According to Source 1, they walk.'',
          source_citations =
            map citation_of
              (filter_chunks_by_selection round_binary64 (default_selection_handler round_binary64)
                 [chunk_legs, chunk_two, chunk_steps] example_selection 2),
          confidence_score =
            estimate_confidence ''According to Source 1, they walk.''
              (context_step example_services example_request
                 (filter_chunks_by_selection round_binary64
                    (default_selection_handler round_binary64)
                    [chunk_legs, chunk_two, chunk_steps] example_selection 2)),
          response_session_id = None,
          retrieved_chunks = 2\<rparr> \<and>
   map point_id (filter_chunks_by_selection round_binary64 (default_selection_handler round_binary64)
                   [chunk_legs, chunk_two, chunk_steps] example_selection 2) = [3, 4] \<and>
   map chapter_id (map citation_of (filter_chunks_by_selection round_binary64 (default_selection_handler round_binary64)
                   [chunk_legs, chunk_two, chunk_steps] example_selection 2))
     = [''ch-02'', ''unknown''] \<and>
   map section_type (map citation_of (filter_chunks_by_selection round_binary64 (default_selection_handler round_binary64)
                   [chunk_legs, chunk_two, chunk_steps] example_selection 2))
     = [''general'', ''general'']"
proof -
  let ?final = "filter_chunks_by_selection round_binary64 (default_selection_handler round_binary64)
                  [chunk_legs, chunk_two, chunk_steps] example_selection 2"
  let ?answer = "''According to Source 1, they walk.''"
  let ?view = "\<lambda>c. (point_id c, chapter_id (citation_of c), section_type (citation_of c))"
  have sc: "\<forall>c \<in> set ?final. 0 \<le> score c \<and> score c \<le> 1"
  proof
    fix c assume "c \<in> set ?final"
    then obtain c0 where "c0 \<in> set [chunk_legs, chunk_two, chunk_steps]" "score c = score c0"
      using filter_chunks_by_selection_origin by blast
    then show "0 \<le> score c \<and> score c \<le> 1"
      by (auto simp: chunk_legs_def chunk_two_def chunk_steps_def)
  qed
  have E: "map ?view ?final = [(3, ''ch-02'', ''general''), (4, ''unknown'', ''general'')]"
    by code_simp
  have "length (map ?view ?final) = 2" unfolding E by simp
  then have n: "length ?final = 2" by simp
  have "map point_id ?final = map fst (map ?view ?final)" by (simp add: comp_def)
  then have a: "map point_id ?final = [3, 4]" unfolding E by simp
  have "map chapter_id (map citation_of ?final) = map (fst \<circ> snd) (map ?view ?final)"
    by (simp add: comp_def)
  then have b: "map chapter_id (map citation_of ?final) = [''ch-02'', ''unknown'']"
    unfolding E by simp
  have "map section_type (map citation_of ?final) = map (snd \<circ> snd) (map ?view ?final)"
    by (simp add: comp_def)
  then have c: "map section_type (map citation_of ?final) = [''general'', ''general'']"
    unfolding E by simp
  have "\<exists>chunks answer conf.
          retrieve_step example_services example_request = Inr chunks \<and>
          generate_step example_services example_request
            (context_step example_services example_request chunks) = Inr (answer, conf) \<and>
          (\<forall>c \<in> set chunks. 0 \<le> score c \<and> score c \<le> 1) \<and>
          \<lparr>response_text = ?answer, source_citations = map citation_of ?final,
           confidence_score = estimate_confidence ?answer
             (context_step example_services example_request ?final),
           response_session_id = session_id example_request,
           retrieved_chunks = int (length ?final)\<rparr>
          = \<lparr>response_text = answer, source_citations = map citation_of chunks,
             confidence_score = conf, response_session_id = session_id example_request,
             retrieved_chunks = int (length chunks)\<rparr>"
    using example_retrieve_step example_generate_step sc by blast
  then have "process_query example_services example_request =
     Inr \<lparr>response_text = ?answer, source_citations = map citation_of ?final,
          confidence_score = estimate_confidence ?answer
             (context_step example_services example_request ?final),
          response_session_id = session_id example_request,
          retrieved_chunks = int (length ?final)\<rparr>"
    using process_query_citations[THEN conjunct1, THEN iffD2] by blast
  then have p: "process_query example_services example_request =
     Inr \<lparr>response_text = ?answer, source_citations = map citation_of ?final,
          confidence_score = estimate_confidence ?answer
             (context_step example_services example_request ?final),
          response_session_id = None, retrieved_chunks = 2\<rparr>"
    by (simp add: n example_request_def)
  show ?thesis using p a b c by (intro conjI)
qed

end
